theory Spec2Isabelle
  imports Complex_Main "HOL-Library.Sublist"
begin

section \<open>PhishGuard backend: campaign dispatch, event tracking, risk scoring\<close>

text \<open>
  A shallow embedding of the Express handlers of \<^verbatim>\<open>backend/server.js\<close>, in its two
  versions: the sandbox version (\<^verbatim>\<open>src/backend/server.js\<close>, simulated mail transport)
  and the SMTP version (\<^verbatim>\<open>src/unnamed/part_000\<close>). The MongoDB collections are lists
  of records in insertion order; a handler is a function from the request and the
  database to a response and the new database. Requests run one after the other.
  Of the failures of the database only the rejection of a campaign whose \<^verbatim>\<open>_id\<close> is
  stored already is modelled; the other rejected promises of Mongoose (a cast error on
  a malformed identifier, a lost connection) are not, so identifiers in requests are
  well-formed ObjectIds throughout.
\<close>

subsection \<open>JavaScript strings\<close>

text \<open>
  A JavaScript string is a sequence of UTF-16 code units, here natural numbers.
  \<open>js\<close> writes an ASCII literal as such a sequence.
\<close>

type_synonym jsstring = "nat list"

definition js :: "string \<Rightarrow> jsstring" where
  "js s = map of_char s"

text \<open>
  \<^verbatim>\<open>String.prototype.trim\<close> removes leading and trailing WhiteSpace and LineTerminator
  code points: TAB, LF, VT, FF, CR, SP, NBSP, U+1680, U+2000 to U+200A, U+2028, U+2029,
  U+202F, U+205F, U+3000 and U+FEFF.
\<close>

definition isWhiteSpace :: "nat \<Rightarrow> bool" where
  "isWhiteSpace c \<longleftrightarrow>
     c = 9 \<or> c = 10 \<or> c = 11 \<or> c = 12 \<or> c = 13 \<or> c = 32 \<or> c = 160 \<or> c = 5760 \<or>
     (8192 \<le> c \<and> c \<le> 8202) \<or> c = 8232 \<or> c = 8233 \<or> c = 8239 \<or> c = 8287 \<or>
     c = 12288 \<or> c = 65279"

definition trim :: "jsstring \<Rightarrow> jsstring" where
  "trim s = rev (dropWhile isWhiteSpace (rev (dropWhile isWhiteSpace s)))"

text \<open>
  \<open>falsy_trim v\<close> is the test \<^verbatim>\<open>!v || !v.trim()\<close> on a body field that is a string or
  absent: true when the field is missing, empty, or blank.
\<close>

definition falsy_trim :: "jsstring option \<Rightarrow> bool" where
  "falsy_trim v = (case v of None \<Rightarrow> True | Some s \<Rightarrow> s = [] \<or> trim s = [])"

text \<open>
  \<^verbatim>\<open>s.replace(pat, rep)\<close> with a string pattern and a string replacement: the first
  occurrence of the pattern is replaced, and the replacement is expanded first. In it
  \<^verbatim>\<open>$$\<close> stands for a dollar sign, \<^verbatim>\<open>$&\<close> for the matched text, a dollar sign
  with a backquote for the text before the match and one with a quote for the text
  after it; there are no captures, so any other dollar sign stands for itself.
  36 is the dollar sign, 38 the ampersand, 96 the backquote and 39 the quote.
\<close>

fun getSubstitution :: "jsstring \<Rightarrow> jsstring \<Rightarrow> jsstring \<Rightarrow> jsstring \<Rightarrow> jsstring" where
  "getSubstitution matched before after [] = []"
| "getSubstitution matched before after [c] = [c]"
| "getSubstitution matched before after (c # d # r) =
     (if c = 36 then
        (if d = 36 then 36 # getSubstitution matched before after r
         else if d = 38 then matched @ getSubstitution matched before after r
         else if d = 96 then before @ getSubstitution matched before after r
         else if d = 39 then after @ getSubstitution matched before after r
         else 36 # getSubstitution matched before after (d # r))
      else c # getSubstitution matched before after (d # r))"

text \<open>\<^verbatim>\<open>s.indexOf(pat)\<close>: the first position where the pattern starts, if any.\<close>

fun indexOf :: "jsstring \<Rightarrow> jsstring \<Rightarrow> nat option" where
  "indexOf pat [] = (if pat = [] then Some 0 else None)"
| "indexOf pat (c # cs) =
     (if prefix pat (c # cs) then Some 0 else map_option Suc (indexOf pat cs))"

definition js_replace :: "jsstring \<Rightarrow> jsstring \<Rightarrow> jsstring \<Rightarrow> jsstring" where
  "js_replace s pat rep =
     (case indexOf pat s of
        None \<Rightarrow> s
      | Some p \<Rightarrow>
          (let before = take p s; after = drop (p + length pat) s
           in before @ getSubstitution pat before after rep @ after))"

text \<open>\<^verbatim>\<open>s.replace(/\n/g, '<br>')\<close>: every line feed becomes \<^verbatim>\<open><br>\<close>.\<close>

definition nl2br :: "jsstring \<Rightarrow> jsstring" where
  "nl2br s = concat (map (\<lambda>c. if c = 10 then js ''<br>'' else [c]) s)"

text \<open>The decimal rendering of a count, as a template literal interpolates it.\<close>

fun digits :: "nat \<Rightarrow> jsstring" where
  "digits n = (if n < 10 then [48 + n] else digits (n div 10) @ [48 + n mod 10])"

declare digits.simps [simp del]

subsection \<open>JavaScript numbers\<close>

text \<open>
  The reports divide one count by another and multiply by 100, in IEEE 754 binary64
  with round to nearest, ties to even. The values that can arise are the non-negative
  finite doubles, \<^verbatim>\<open>Infinity\<close> and \<^verbatim>\<open>NaN\<close>. \<open>Finite m e\<close> is the double of value
  \<open>m * 2 ^ e\<close>, with \<open>m = 0\<close> and \<open>e = 0\<close> for zero and \<open>2 ^ 52 \<le> m < 2 ^ 53\<close> otherwise.
  Counts are array lengths, below \<open>2 ^ 32\<close>: they are doubles themselves, and no
  quotient or product of the reports leaves the range of the normal doubles.
\<close>

datatype number = Finite nat int | Infinity | NaN

text \<open>The number of binary digits of \<open>n\<close>.\<close>

fun bits :: "nat \<Rightarrow> nat" where
  "bits n = (if n = 0 then 0 else Suc (bits (n div 2)))"

declare bits.simps [simp del]

text \<open>The fraction \<open>N / D\<close> rounded to the nearest integer, a tie to the even one.\<close>

definition roundFrac :: "nat \<Rightarrow> nat \<Rightarrow> nat" where
  "roundFrac N D =
     (let q = N div D; r = N mod D
      in if 2 * r < D then q else if D < 2 * r then q + 1 else if even q then q else q + 1)"

text \<open>The integer part of the binary logarithm of \<open>N / D\<close>, for positive \<open>N\<close> and \<open>D\<close>.\<close>

definition ilog2 :: "nat \<Rightarrow> nat \<Rightarrow> int" where
  "ilog2 N D =
     (let d = int (bits N) - int (bits D)
      in if (if 0 \<le> d then D * 2 ^ nat d \<le> N else D \<le> N * 2 ^ nat (- d)) then d else d - 1)"

text \<open>
  The double nearest to \<open>N / D\<close>, as mantissa and exponent: the quotient is scaled into
  \<open>[2 ^ 52, 2 ^ 53)\<close>, rounded, and renormalised when rounding reaches \<open>2 ^ 53\<close>.
\<close>

definition round64 :: "nat \<Rightarrow> nat \<Rightarrow> nat \<times> int" where
  "round64 N D =
     (if N = 0 then (0, 0)
      else let e = ilog2 N D - 52;
               m = (if 0 \<le> e then roundFrac N (D * 2 ^ nat e) else roundFrac (N * 2 ^ nat (- e)) D)
           in if m = 2 ^ 53 then (2 ^ 52, e + 1) else (m, e))"

text \<open>The value of the double of mantissa \<open>m\<close> and exponent \<open>e\<close>.\<close>

definition double_value :: "nat \<Rightarrow> int \<Rightarrow> rat" where
  "double_value m e = of_nat m * 2 powi e"

text \<open>\<^verbatim>\<open>a / b\<close> on two counts, and \<^verbatim>\<open>x * n\<close> on a number and a count.\<close>

definition js_div :: "nat \<Rightarrow> nat \<Rightarrow> number" where
  "js_div a b = (if b = 0 then (if a = 0 then NaN else Infinity)
                 else (let (m, e) = round64 a b in Finite m e))"

definition js_times :: "number \<Rightarrow> nat \<Rightarrow> number" where
  "js_times x n = (case x of
       Finite m e \<Rightarrow>
         (let (m', e') = round64 (m * n) 1 in if m' = 0 then Finite 0 0 else Finite m' (e' + e))
     | Infinity \<Rightarrow> (if n = 0 then NaN else Infinity)
     | NaN \<Rightarrow> NaN)"

text \<open>
  \<^verbatim>\<open>x.toFixed(1)\<close>: for a finite \<open>x\<close> below \<open>10 ^ 21\<close>, the integer \<open>n\<close> for which
  \<open>n / 10\<close> is closest to \<open>x\<close>, the larger of two such, written in decimal with a point
  before its last digit and a leading zero when it has one digit only; \<^verbatim>\<open>NaN\<close> and
  \<^verbatim>\<open>Infinity\<close> print their names.
\<close>

definition toFixed1 :: "number \<Rightarrow> jsstring" where
  "toFixed1 x = (case x of
       NaN \<Rightarrow> js ''NaN''
     | Infinity \<Rightarrow> js ''Infinity''
     | Finite m e \<Rightarrow>
        (let n = (if 0 \<le> e then 10 * m * 2 ^ nat e
                  else (20 * m + 2 ^ nat (- e)) div 2 ^ (nat (- e) + 1));
             d = digits n;
             d' = (if length d \<le> 1 then js ''0'' @ d else d)
         in butlast d' @ js ''.'' @ [last d']))"

subsection \<open>The collections\<close>

text \<open>
  An ObjectId is modelled by its rendering (\<^verbatim>\<open>toString()\<close>, 24 hexadecimal digits), so
  that the comparisons \<^verbatim>\<open>a.toString() === b.toString()\<close> of the code are equalities.
  Schema fields of type String that a document may lack are options (\<open>None\<close> is
  \<^verbatim>\<open>undefined\<close>). Dates are milliseconds.
\<close>

type_synonym objectId = jsstring

record User =
  user_id :: objectId
  user_name :: "jsstring option"
  email :: "jsstring option"
  department :: "jsstring option"
  createdAt :: nat

record Campaign =
  campaign_id :: objectId
  name :: jsstring
  templateId :: "objectId option"
  customSubject :: jsstring
  customBody :: jsstring
  targetUsers :: "objectId list"
  status :: jsstring
  clicks :: nat
  credentials :: nat
  sentAt :: nat

record Click =
  campaignId :: objectId
  userId :: objectId
  token :: "jsstring option"
  ipAddress :: "jsstring option"
  userAgent :: "jsstring option"
  timestamp :: nat

record Credential =
  cred_campaignId :: objectId
  cred_userId :: objectId
  attempted :: bool
  cred_timestamp :: nat

record db =
  Users :: "User list"
  Campaigns :: "Campaign list"
  Clicks :: "Click list"
  Credentials :: "Credential list"

text \<open>\<^verbatim>\<open>Model.findById(id)\<close>: the document with that \<^verbatim>\<open>_id\<close>, or null.\<close>

definition findCampaignById :: "objectId \<Rightarrow> db \<Rightarrow> Campaign option" where
  "findCampaignById i s = find (\<lambda>c. campaign_id c = i) (Campaigns s)"

definition findUserById :: "objectId \<Rightarrow> db \<Rightarrow> User option" where
  "findUserById i s = find (\<lambda>u. user_id u = i) (Users s)"

text \<open>
  \<^verbatim>\<open>Campaign.findByIdAndUpdate(id, { $inc: ... })\<close>: one atomic update of the first
  document with that \<^verbatim>\<open>_id\<close>; no document, no change and no error.
\<close>

fun findByIdAndUpdate :: "objectId \<Rightarrow> (Campaign \<Rightarrow> Campaign) \<Rightarrow> Campaign list \<Rightarrow> Campaign list" where
  "findByIdAndUpdate i f [] = []"
| "findByIdAndUpdate i f (c # cs) =
     (if campaign_id c = i then f c # cs else c # findByIdAndUpdate i f cs)"

definition inc_clicks :: "Campaign \<Rightarrow> Campaign" where
  "inc_clicks c = c\<lparr>clicks := clicks c + 1\<rparr>"

definition inc_credentials :: "Campaign \<Rightarrow> Campaign" where
  "inc_credentials c = c\<lparr>credentials := credentials c + 1\<rparr>"

subsection \<open>Risk classification\<close>

text \<open>
  The two handlers that classify a user inline the same conditional, with Spanish labels
  in \<^verbatim>\<open>GET /api/statistics/users\<close>:
  \<^verbatim>\<open>userCreds > 1 ? 'Alto' : userClicks > 2 ? 'Medio' : 'Bajo'\<close>
  and English ones in \<^verbatim>\<open>GET /api/reports/vulnerability\<close>:
  \<^verbatim>\<open>userCreds > 1 ? 'high' : userClicks > 2 ? 'medium' : 'low'\<close>.
\<close>

definition risk_es :: "nat \<Rightarrow> nat \<Rightarrow> jsstring" where
  "risk_es userClicks userCreds =
     (if userCreds > 1 then js ''Alto'' else if userClicks > 2 then js ''Medio'' else js ''Bajo'')"

definition risk_en :: "nat \<Rightarrow> nat \<Rightarrow> jsstring" where
  "risk_en userClicks userCreds =
     (if userCreds > 1 then js ''high'' else if userClicks > 2 then js ''medium'' else js ''low'')"

subsection \<open>Campaign dispatch: \<^verbatim>\<open>POST /api/campaigns\<close>\<close>

text \<open>
  The two versions of the handler differ in the constants of the message only: the base
  of the tracking URL, the sender, the HTML frame around the body and the text of the
  answer when no mail went out. The SMTP version reads the first two from the
  environment (\<^verbatim>\<open>BASE_URL\<close> or \<^verbatim>\<open>http://localhost:${PORT || 5000}\<close>,
  \<^verbatim>\<open>FROM_EMAIL\<close>, \<^verbatim>\<open>FROM_NAME\<close>); \<open>Smtp\<close> carries their values.
\<close>

datatype version = Sandbox | Smtp jsstring jsstring jsstring

fun baseUrl :: "version \<Rightarrow> jsstring" where
  "baseUrl Sandbox = js ''http://localhost:3000''"
| "baseUrl (Smtp base fromEmail fromName) = base"

fun fromHeader :: "version \<Rightarrow> jsstring" where
  "fromHeader Sandbox = [34] @ js ''PhishGuard Test'' @ [34] @ js '' <phishing@test.com>''"
| "fromHeader (Smtp base fromEmail fromName) =
     [34] @ fromName @ [34] @ js '' <'' @ fromEmail @ js ''>''"

text \<open>
  The HTML part: the body with its line feeds turned into \<^verbatim>\<open><br>\<close>, inside
  \<^verbatim>\<open><p>\<close> (sandbox) or a styled \<^verbatim>\<open><div>\<close> (SMTP; the template literal spans three
  lines, so the frame holds two line feeds and the indentation). 34 is the double quote.
\<close>

fun htmlBody :: "version \<Rightarrow> jsstring \<Rightarrow> jsstring" where
  "htmlBody Sandbox emailBody = js ''<p>'' @ nl2br emailBody @ js ''</p>''"
| "htmlBody (Smtp base fromEmail fromName) emailBody =
     js ''<div style='' @ [34]
       @ js ''font-family: Arial, sans-serif; max-width: 600px; margin: 0 auto;'' @ [34]
       @ js ''>'' @ [10] @ replicate 14 32
       @ nl2br emailBody @ [10] @ replicate 12 32 @ js ''</div>''"

record Mail =
  mail_from :: jsstring
  mail_to :: "jsstring option"
  mail_subject :: jsstring
  mail_text :: jsstring
  mail_html :: jsstring

text \<open>
  What the handler takes from outside: the \<^verbatim>\<open>_id\<close> Mongoose gives the new document,
  the clock, the sixteen random bytes in hexadecimal drawn for the k-th recipient
  (\<open>None\<close>: the call throws, which the outer \<^verbatim>\<open>catch\<close> of the loop body counts as a
  failure), and whether \<^verbatim>\<open>transporter.sendMail\<close> resolves for the k-th recipient.
\<close>

record Env =
  newId :: objectId
  now :: nat
  randomBytes :: "nat \<Rightarrow> jsstring option"
  sendMail :: "nat \<Rightarrow> Mail \<Rightarrow> bool"

text \<open>
  The JSON body of the request. The handler reads \<^verbatim>\<open>name\<close>, \<^verbatim>\<open>customSubject\<close>,
  \<^verbatim>\<open>customBody\<close> and \<^verbatim>\<open>targetUsers\<close>, and hands the whole body to
  \<^verbatim>\<open>new Campaign\<close>, which takes every field of the schema that the body carries:
  \<^verbatim>\<open>templateId\<close>, and also \<^verbatim>\<open>_id\<close>, \<^verbatim>\<open>status\<close>, \<^verbatim>\<open>clicks\<close>, \<^verbatim>\<open>credentials\<close> and
  \<^verbatim>\<open>sentAt\<close>. A field is a value of its type or absent; counters are counts. A field
  of another JSON type makes \<^verbatim>\<open>trim\<close> throw or the cast of \<^verbatim>\<open>new Campaign\<close> fail, which
  the handler's \<^verbatim>\<open>catch\<close> answers with 400 before anything is saved.
\<close>

record CampaignBody =
  body_name :: "jsstring option"
  body_customSubject :: "jsstring option"
  body_customBody :: "jsstring option"
  body_targetUsers :: "objectId list option"
  body_templateId :: "objectId option"
  body_id :: "objectId option"
  body_status :: "jsstring option"
  body_clicks :: "nat option"
  body_credentials :: "nat option"
  body_sentAt :: "nat option"

definition trackingUrl :: "version \<Rightarrow> objectId \<Rightarrow> objectId \<Rightarrow> jsstring \<Rightarrow> jsstring" where
  "trackingUrl v cid uid tok =
     baseUrl v @ js ''/track/'' @ cid @ js ''/'' @ uid @ js ''/'' @ tok"

definition mailFor :: "version \<Rightarrow> objectId \<Rightarrow> jsstring \<Rightarrow> jsstring \<Rightarrow> User \<Rightarrow> jsstring \<Rightarrow> Mail" where
  "mailFor v cid subj body u tok =
     (let emailBody = js_replace body (js ''[LINK]'') (trackingUrl v cid (user_id u) tok)
      in \<lparr>mail_from = fromHeader v, mail_to = email u, mail_subject = subj,
          mail_text = emailBody, mail_html = htmlBody v emailBody\<rparr>)"

text \<open>
  The loop \<^verbatim>\<open>for (const user of users)\<close>, from the k-th recipient on. The state of the
  loop is the pair of counters and the mails handed to the transport so far.
\<close>

fun sendAll :: "version \<Rightarrow> Env \<Rightarrow> objectId \<Rightarrow> jsstring \<Rightarrow> jsstring \<Rightarrow> nat \<Rightarrow> User list
    \<Rightarrow> nat \<times> nat \<times> Mail list \<Rightarrow> nat \<times> nat \<times> Mail list" where
  "sendAll v env cid subj body k [] acc = acc"
| "sendAll v env cid subj body k (u # us) (emailsSent, emailsFailed, outbox) =
     (case randomBytes env k of
        None \<Rightarrow> sendAll v env cid subj body (Suc k) us (emailsSent, emailsFailed + 1, outbox)
      | Some tok \<Rightarrow>
          (let m = mailFor v cid subj body u tok in
           if sendMail env k m
           then sendAll v env cid subj body (Suc k) us (emailsSent + 1, emailsFailed, outbox @ [m])
           else sendAll v env cid subj body (Suc k) us (emailsSent, emailsFailed + 1, outbox @ [m])))"

text \<open>
  The answers. 241 and 243 are the code units of n with tilde and o with acute accent
  in \<^verbatim>\<open>Campa\<close>..\<^verbatim>\<open>a\<close> and \<^verbatim>\<open>configuraci\<close>..\<^verbatim>\<open>n\<close>.
\<close>

datatype ValidationError =
  NameRequired | SubjectRequired | BodyRequired | TargetUsersRequired

fun error_message :: "ValidationError \<Rightarrow> jsstring" where
  "error_message NameRequired = js ''El nombre de la campa'' @ [241] @ js ''a es requerido''"
| "error_message SubjectRequired = js ''El asunto del email es requerido''"
| "error_message BodyRequired = js ''El cuerpo del email es requerido''"
| "error_message TargetUsersRequired = js ''Debes seleccionar al menos un usuario objetivo''"

fun allFailedNote :: "version \<Rightarrow> jsstring" where
  "allFailedNote Sandbox =
     js '' email(s) fallaron (modo sandbox - esto es normal si no hay configuraci''
       @ [243] @ js ''n de email)''"
| "allFailedNote (Smtp base fromEmail fromName) =
     js '' email(s) fallaron. Verifica tu configuraci'' @ [243]
       @ js ''n SMTP en el archivo .env''"

definition dispatchMessage :: "version \<Rightarrow> nat \<Rightarrow> nat \<Rightarrow> jsstring" where
  "dispatchMessage v emailsSent emailsFailed =
     js ''Campa'' @ [241] @ js ''a creada. '' @
     (if emailsSent > 0
      then digits emailsSent @ js '' email(s) enviado(s)'' @
           (if emailsFailed > 0 then js '', '' @ digits emailsFailed @ js '' fallido(s)'' else [])
      else digits emailsFailed @ allFailedNote v)"

datatype DispatchResponse =
  Created Campaign jsstring nat nat
| BadRequest ValidationError
| SaveFailed

text \<open>
  \<^verbatim>\<open>new Campaign(req.body)\<close>: each field of the schema from the body when the body
  carries it, and otherwise its default: a generated \<^verbatim>\<open>_id\<close>, \<^verbatim>\<open>'active'\<close>, 0, 0 and
  the time.
\<close>

definition newCampaign :: "Env \<Rightarrow> CampaignBody \<Rightarrow> Campaign" where
  "newCampaign env b =
     \<lparr>campaign_id = (case body_id b of None \<Rightarrow> newId env | Some i \<Rightarrow> i),
      name = the (body_name b), templateId = body_templateId b,
      customSubject = the (body_customSubject b), customBody = the (body_customBody b),
      targetUsers = the (body_targetUsers b),
      status = (case body_status b of None \<Rightarrow> js ''active'' | Some t \<Rightarrow> t),
      clicks = (case body_clicks b of None \<Rightarrow> 0 | Some n \<Rightarrow> n),
      credentials = (case body_credentials b of None \<Rightarrow> 0 | Some n \<Rightarrow> n),
      sentAt = (case body_sentAt b of None \<Rightarrow> now env | Some t \<Rightarrow> t)\<rparr>"

text \<open>
  The handler: the four validations, each answering 400 before anything is written;
  then the campaign is saved, the stored users among the targets are read
  (\<^verbatim>\<open>User.find({ _id: { $in: req.body.targetUsers } })\<close>) and mailed one after the other.
  MongoDB keeps \<^verbatim>\<open>_id\<close> unique within a collection: \<^verbatim>\<open>campaign.save()\<close> rejects a
  campaign whose \<^verbatim>\<open>_id\<close> is stored already, and the handler's \<^verbatim>\<open>catch\<close> answers 400
  (\<open>SaveFailed\<close>) with nothing written or sent. The result is the answer, the database
  after the request and the mails handed to the transport. \<open>newCampaign\<close> is reached only
  with the four validated fields present.
\<close>

definition postCampaigns :: "version \<Rightarrow> Env \<Rightarrow> CampaignBody \<Rightarrow> db \<Rightarrow> DispatchResponse \<times> db \<times> Mail list" where
  "postCampaigns v env b s =
     (if falsy_trim (body_name b) then (BadRequest NameRequired, s, [])
      else if falsy_trim (body_customSubject b) then (BadRequest SubjectRequired, s, [])
      else if falsy_trim (body_customBody b) then (BadRequest BodyRequired, s, [])
      else if (case body_targetUsers b of None \<Rightarrow> True | Some ts \<Rightarrow> length ts = 0)
        then (BadRequest TargetUsersRequired, s, [])
      else
        (let campaign = newCampaign env b in
         if campaign_id campaign \<in> set (map campaign_id (Campaigns s)) then (SaveFailed, s, [])
         else
           (let s' = s\<lparr>Campaigns := Campaigns s @ [campaign]\<rparr>;
                users = filter (\<lambda>u. user_id u \<in> set (targetUsers campaign)) (Users s');
                (emailsSent, emailsFailed, outbox) =
                  sendAll v env (campaign_id campaign) (customSubject campaign)
                    (customBody campaign) 0 users (0, 0, [])
            in (Created campaign (dispatchMessage v emailsSent emailsFailed) emailsSent
                  emailsFailed,
                s', outbox))))"

subsection \<open>Event tracking\<close>

text \<open>
  \<^verbatim>\<open>a || b\<close> on values that are a string or undefined: the first operand when it is truthy
  (a non-empty string), the second otherwise.
\<close>

definition truthy :: "jsstring option \<Rightarrow> bool" where
  "truthy v = (case v of None \<Rightarrow> False | Some x \<Rightarrow> x \<noteq> [])"

definition js_or :: "jsstring option \<Rightarrow> jsstring option \<Rightarrow> jsstring option" where
  "js_or a b = (if truthy a then a else b)"

text \<open>
  The answers of the tracking handlers: 302 with its target, 404, 400 for missing
  parameters, 200 with \<^verbatim>\<open>success: true\<close>.
\<close>

datatype Response = Redirect jsstring | NotFound | MissingParameters | Success

text \<open>
  \<^verbatim>\<open>GET /track/:campaignId/:userId/:token\<close> (SMTP version only): the link of the mail.
  The three path parameters are strings; the address and the user agent come from the
  request, with \<^verbatim>\<open>'unknown'\<close> as the last resort. The first argument is the clock, the
  schema's default for \<^verbatim>\<open>timestamp\<close>.
\<close>

record TrackRequest =
  param_campaignId :: objectId
  param_userId :: objectId
  param_token :: jsstring
  req_ip :: "jsstring option"
  req_remoteAddress :: "jsstring option"
  req_forwardedFor :: "jsstring option"
  req_userAgent :: "jsstring option"

definition getTrack :: "nat \<Rightarrow> TrackRequest \<Rightarrow> db \<Rightarrow> Response \<times> db" where
  "getTrack t r s =
     (let ip = js_or (js_or (js_or (req_ip r) (req_remoteAddress r)) (req_forwardedFor r))
                 (Some (js ''unknown''));
          agent = js_or (req_userAgent r) (Some (js ''unknown''))
      in if findCampaignById (param_campaignId r) s = None \<or> findUserById (param_userId r) s = None
         then (NotFound, s)
         else
           (let click = \<lparr>campaignId = param_campaignId r, userId = param_userId r,
                          token = Some (param_token r), ipAddress = ip, userAgent = agent,
                          timestamp = t\<rparr>
            in (Redirect (js ''/phishing/'' @ param_campaignId r @ js ''/'' @ param_userId r),
                s\<lparr>Clicks := Clicks s @ [click],
                  Campaigns := findByIdAndUpdate (param_campaignId r) inc_clicks (Campaigns s)\<rparr>)))"

text \<open>
  \<^verbatim>\<open>POST /track/phishing\<close> (SMTP version only): the form of the decoy page. The handler
  reads \<^verbatim>\<open>email\<close> and \<^verbatim>\<open>password\<close> from the body; it writes \<^verbatim>\<open>email\<close> to the console
  and does nothing with \<^verbatim>\<open>password\<close>.
\<close>

record PhishingBody =
  ph_campaignId :: "objectId option"
  ph_userId :: "objectId option"
  ph_email :: "jsstring option"
  ph_password :: "jsstring option"

definition postTrackPhishing :: "nat \<Rightarrow> PhishingBody \<Rightarrow> db \<Rightarrow> Response \<times> db" where
  "postTrackPhishing t b s =
     (if \<not> truthy (ph_campaignId b) \<or> \<not> truthy (ph_userId b) then (MissingParameters, s)
      else if findCampaignById (the (ph_campaignId b)) s = None
              \<or> findUserById (the (ph_userId b)) s = None
        then (NotFound, s)
      else
        (let credential = \<lparr>cred_campaignId = the (ph_campaignId b),
                            cred_userId = the (ph_userId b), attempted = True,
                            cred_timestamp = t\<rparr>
         in (Success,
             s\<lparr>Credentials := Credentials s @ [credential],
               Campaigns := findByIdAndUpdate (the (ph_campaignId b)) inc_credentials
                              (Campaigns s)\<rparr>)))"

text \<open>
  \<^verbatim>\<open>POST /api/track/click\<close> and \<^verbatim>\<open>POST /api/track/credentials\<close> (both versions; in the
  SMTP version kept "for compatibility with the frontend"): the event is built from the
  body and saved, then the counter is incremented. Neither looks the campaign or the
  user up. The bodies carry both identifiers, as the frontend sends them.
\<close>

record ClickBody =
  cb_campaignId :: objectId
  cb_userId :: objectId
  cb_token :: "jsstring option"
  cb_ipAddress :: "jsstring option"
  cb_userAgent :: "jsstring option"

definition postApiTrackClick :: "nat \<Rightarrow> ClickBody \<Rightarrow> db \<Rightarrow> Response \<times> db" where
  "postApiTrackClick t b s =
     (let click = \<lparr>campaignId = cb_campaignId b, userId = cb_userId b, token = cb_token b,
                    ipAddress = cb_ipAddress b, userAgent = cb_userAgent b, timestamp = t\<rparr>
      in (Success,
          s\<lparr>Clicks := Clicks s @ [click],
            Campaigns := findByIdAndUpdate (cb_campaignId b) inc_clicks (Campaigns s)\<rparr>))"



subsection \<open>Department rates: \<^verbatim>\<open>GET /api/statistics/departments\<close>\<close>

text \<open>
  The object \<^verbatim>\<open>departments\<close> is a list of its own properties in insertion order: the
  key, \<^verbatim>\<open>total\<close> and \<^verbatim>\<open>clicked\<close> (\<open>tot\<close> and \<open>clk\<close> below). A user without department has the key
  \<^verbatim>\<open>undefined\<close>. A key that \<^verbatim>\<open>Object.prototype\<close> already has reads as truthy, so the
  handler creates no own property for it and its increments go to the inherited value.
\<close>

type_synonym departments = "(jsstring \<times> nat \<times> nat) list"

definition objectPrototypeKeys :: "jsstring list" where
  "objectPrototypeKeys =
     [js ''constructor'', js ''__defineGetter__'', js ''__defineSetter__'',
      js ''hasOwnProperty'', js ''__lookupGetter__'', js ''__lookupSetter__'',
      js ''isPrototypeOf'', js ''propertyIsEnumerable'', js ''toString'', js ''valueOf'',
      js ''__proto__'', js ''toLocaleString'']"

definition propertyKey :: "jsstring option \<Rightarrow> jsstring" where
  "propertyKey d = (case d of None \<Rightarrow> js ''undefined'' | Some k \<Rightarrow> k)"

fun incTotal :: "jsstring \<Rightarrow> departments \<Rightarrow> departments" where
  "incTotal k [] = []"
| "incTotal k ((k', tot, clk) # ds) =
     (if k' = k then (k', tot + 1, clk) # ds else (k', tot, clk) # incTotal k ds)"

fun incClicked :: "jsstring \<Rightarrow> departments \<Rightarrow> departments" where
  "incClicked k [] = []"
| "incClicked k ((k', tot, clk) # ds) =
     (if k' = k then (k', tot, clk + 1) # ds else (k', tot, clk) # incClicked k ds)"

text \<open>The body of \<^verbatim>\<open>users.forEach\<close>: initialise the department if it is new, count the user.\<close>

definition countUser :: "departments \<Rightarrow> User \<Rightarrow> departments" where
  "countUser deps u =
     (let k = propertyKey (department u)
      in if k \<in> set objectPrototypeKeys then deps
         else incTotal k (if k \<in> set (map fst deps) then deps else deps @ [(k, 0, 0)]))"

text \<open>
  The body of \<^verbatim>\<open>clicks.forEach\<close>. \<^verbatim>\<open>populate('userId')\<close> has replaced the id by the
  stored user, or by null when there is none. A populated user with a truthy department
  is taken as it is, otherwise the user is looked up in \<^verbatim>\<open>users\<close>; the click counts when
  the user has a truthy department that is a property of \<^verbatim>\<open>departments\<close>.
\<close>

definition countClick :: "User list \<Rightarrow> departments \<Rightarrow> Click \<Rightarrow> departments" where
  "countClick users deps click =
     (case find (\<lambda>u. user_id u = userId click) users of
        None \<Rightarrow> deps
      | Some p \<Rightarrow>
          (let user = (if truthy (department p) then Some p
                       else find (\<lambda>u. user_id u = user_id p) users)
           in case user of
                None \<Rightarrow> deps
              | Some u \<Rightarrow>
                  if truthy (department u) \<and> the (department u) \<in> set (map fst deps)
                  then incClicked (the (department u)) deps else deps))"

text \<open>
  \<^verbatim>\<open>Object.keys\<close> lists the array indices first (canonical decimal strings below
  \<open>2 ^ 32 - 1\<close>), in ascending order, then the other keys in insertion order.
\<close>

definition arrayIndex :: "jsstring \<Rightarrow> nat option" where
  "arrayIndex k =
     (if k \<noteq> [] \<and> list_all (\<lambda>c. 48 \<le> c \<and> c \<le> 57) k \<and> (k = [48] \<or> hd k \<noteq> 48)
      then (let n = foldl (\<lambda>a c. 10 * a + (c - 48)) 0 k
            in if n < 2 ^ 32 - 1 then Some n else None)
      else None)"

definition ownEntries :: "departments \<Rightarrow> departments" where
  "ownEntries deps =
     sort_key (\<lambda>(k, tot, clk). the (arrayIndex k))
       (filter (\<lambda>(k, tot, clk). arrayIndex k \<noteq> None) deps)
     @ filter (\<lambda>(k, tot, clk). arrayIndex k = None) deps"

record DepartmentRate =
  dr_department :: jsstring
  dr_total :: nat
  dr_clicked :: nat
  dr_rate :: jsstring

text \<open>
  \<^verbatim>\<open>total > 0 ? ((clicked / total) * 100).toFixed(1) : '0.0'\<close>
\<close>

definition rateOf :: "nat \<Rightarrow> nat \<Rightarrow> jsstring" where
  "rateOf tot clk =
     (if tot > 0 then toFixed1 (js_times (js_div clk tot) 100) else js ''0.0'')"

definition getStatisticsDepartments :: "db \<Rightarrow> DepartmentRate list" where
  "getStatisticsDepartments s =
     (let departments = foldl countUser [] (Users s);
          departments = foldl (countClick (Users s)) departments (Clicks s)
      in map (\<lambda>(dept, tot, clk).
                \<lparr>dr_department = dept, dr_total = tot, dr_clicked = clk,
                 dr_rate = rateOf tot clk\<rparr>)
           (ownEntries departments))"

subsection \<open>User statistics: \<^verbatim>\<open>GET /api/statistics/users\<close>\<close>

record UserStat =
  st_userId :: objectId
  st_name :: "jsstring option"
  st_email :: "jsstring option"
  st_department :: "jsstring option"
  st_clicks :: nat
  st_credentials :: nat
  st_risk :: jsstring

definition clicksOfUser :: "db \<Rightarrow> User \<Rightarrow> nat" where
  "clicksOfUser s u = length (filter (\<lambda>c. userId c = user_id u) (Clicks s))"

definition credsOfUser :: "db \<Rightarrow> User \<Rightarrow> nat" where
  "credsOfUser s u = length (filter (\<lambda>c. cred_userId c = user_id u) (Credentials s))"

definition getStatisticsUsers :: "db \<Rightarrow> UserStat list" where
  "getStatisticsUsers s =
     map (\<lambda>u. \<lparr>st_userId = user_id u, st_name = user_name u, st_email = email u,
                st_department = department u, st_clicks = clicksOfUser s u,
                st_credentials = credsOfUser s u,
                st_risk = risk_es (clicksOfUser s u) (credsOfUser s u)\<rparr>)
       (Users s)"

subsection \<open>Vulnerability report: \<^verbatim>\<open>GET /api/reports/vulnerability\<close>\<close>

text \<open>
  The two rates are the string that \<^verbatim>\<open>toFixed(1)\<close> returns when there are targeted
  recipients, and the number 0 when there are none:
  \<^verbatim>\<open>totalEmails > 0 ? ((totalClicks / totalEmails) * 100).toFixed(1) : 0\<close>.
  237 and 243 are the code units of i and o with acute accent.
\<close>

datatype jsvalue = Num number | Str jsstring

record Report =
  totalUsers :: nat
  totalCampaigns :: nat
  highRisk :: nat
  mediumRisk :: nat
  lowRisk :: nat
  avgClickRate :: jsvalue
  avgCredentialRate :: jsvalue
  recommendations :: "jsstring list"

definition totalEmails :: "db \<Rightarrow> nat" where
  "totalEmails s = foldl (\<lambda>sum c. sum + length (targetUsers c)) 0 (Campaigns s)"

definition avgRate :: "nat \<Rightarrow> nat \<Rightarrow> jsvalue" where
  "avgRate count emails =
     (if emails > 0 then Str (toFixed1 (js_times (js_div count emails) 100))
      else Num (Finite 0 0))"

definition getReportsVulnerability :: "db \<Rightarrow> Report" where
  "getReportsVulnerability s =
     (let totalClicks = length (Clicks s);
          totalCredentials = length (Credentials s);
          userStats = map (\<lambda>u. (user_id u, risk_en (clicksOfUser s u) (credsOfUser s u))) (Users s)
      in \<lparr>totalUsers = length (Users s),
          totalCampaigns = length (Campaigns s),
          highRisk = length (filter (\<lambda>(i, risk). risk = js ''high'') userStats),
          mediumRisk = length (filter (\<lambda>(i, risk). risk = js ''medium'') userStats),
          lowRisk = length (filter (\<lambda>(i, risk). risk = js ''low'') userStats),
          avgClickRate = avgRate totalClicks (totalEmails s),
          avgCredentialRate = avgRate totalCredentials (totalEmails s),
          recommendations =
            [js ''Reforzar capacitaci'' @ [243] @ js ''n en departamentos de alto riesgo'',
             js ''Implementar autenticaci'' @ [243] @ js ''n de dos factores'',
             js ''Realizar simulaciones mensuales'',
             js ''Crear pol'' @ [237] @ js ''tica de verificaci'' @ [243] @ js ''n de emails'']\<rparr>)"

subsection \<open>The operations that write, and the counter invariant\<close>







text \<open>
  MongoDB keeps \<^verbatim>\<open>_id\<close> unique within a collection.
\<close>

definition unique_ids :: "db \<Rightarrow> bool" where
  "unique_ids s \<longleftrightarrow> distinct (map campaign_id (Campaigns s))"




subsection \<open>What the handlers write\<close>

text \<open>
  The database after a tracking handler that records: one event appended, one increment.
  \<open>clickOfTrack\<close> and \<open>clickOfBody\<close> are the Click documents that the link handler
  and the manual handler build.
\<close>

definition click_recorded :: "Click \<Rightarrow> db \<Rightarrow> db" where
  "click_recorded k s =
     s\<lparr>Clicks := Clicks s @ [k],
       Campaigns := findByIdAndUpdate (campaignId k) inc_clicks (Campaigns s)\<rparr>"

definition credential_recorded :: "Credential \<Rightarrow> db \<Rightarrow> db" where
  "credential_recorded k s =
     s\<lparr>Credentials := Credentials s @ [k],
       Campaigns := findByIdAndUpdate (cred_campaignId k) inc_credentials (Campaigns s)\<rparr>"

definition clickOfTrack :: "nat \<Rightarrow> TrackRequest \<Rightarrow> Click" where
  "clickOfTrack t r =
     \<lparr>campaignId = param_campaignId r, userId = param_userId r, token = Some (param_token r),
      ipAddress = js_or (js_or (js_or (req_ip r) (req_remoteAddress r)) (req_forwardedFor r))
                    (Some (js ''unknown'')),
      userAgent = js_or (req_userAgent r) (Some (js ''unknown'')), timestamp = t\<rparr>"

definition clickOfBody :: "nat \<Rightarrow> ClickBody \<Rightarrow> Click" where
  "clickOfBody t b =
     \<lparr>campaignId = cb_campaignId b, userId = cb_userId b, token = cb_token b,
      ipAddress = cb_ipAddress b, userAgent = cb_userAgent b, timestamp = t\<rparr>"

text \<open>Every department of the object has at least one user.\<close>

definition totals_positive :: "departments \<Rightarrow> bool" where
  "totals_positive deps \<longleftrightarrow> list_all (\<lambda>(k, tot, clk). 0 < tot) deps"

subsection \<open>The specification's own notions\<close>

text \<open>
  The specification's RiskScorer, following its words: three levels, credentialCount > 1
  gives High, else clickCount > 2 gives Medium, else Low. The labels are the strings the
  two handlers print for a level.
\<close>

datatype RiskLevel = Low | Medium | High

definition spec_score :: "nat \<Rightarrow> nat \<Rightarrow> RiskLevel" where
  "spec_score clickCount credentialCount =
     (if credentialCount > 1 then High else if clickCount > 2 then Medium else Low)"

fun label_es :: "RiskLevel \<Rightarrow> jsstring" where
  "label_es High = js ''Alto''"
| "label_es Medium = js ''Medio''"
| "label_es Low = js ''Bajo''"

fun label_en :: "RiskLevel \<Rightarrow> jsstring" where
  "label_en High = js ''high''"
| "label_en Medium = js ''medium''"
| "label_en Low = js ''low''"

text \<open>
  The HTML escaping the specification speaks of, following its words: the five HTML
  metacharacters become entities.
\<close>

definition spec_escapeHtml :: "jsstring \<Rightarrow> jsstring" where
  "spec_escapeHtml s = concat (map (\<lambda>c.
      if c = 38 then js ''&amp;'' else if c = 60 then js ''&lt;''
      else if c = 62 then js ''&gt;'' else if c = 34 then js ''&quot;''
      else if c = 39 then js ''&#39;'' else [c]) s)"

subsection \<open>Example data\<close>

definition alice :: User where
  "alice = \<lparr>user_id = js ''64b000000000000000000001'', user_name = Some (js ''Alice''),
            email = Some (js ''alice@empresa.com''), department = Some (js ''IT''),
            createdAt = 0\<rparr>"

definition bob :: User where
  "bob = \<lparr>user_id = js ''64b000000000000000000002'', user_name = Some (js ''Bob''),
          email = Some (js ''bob@empresa.com''), department = Some (js ''Ventas''),
          createdAt = 0\<rparr>"

definition ghost :: objectId where
  "ghost = js ''64b0000000000000000000ff''"

definition db0 :: db where
  "db0 = \<lparr>Users = [], Campaigns = [], Clicks = [], Credentials = []\<rparr>"

definition db1 :: db where
  "db1 = \<lparr>Users = [alice], Campaigns = [], Clicks = [], Credentials = []\<rparr>"

definition env1 :: Env where
  "env1 = \<lparr>newId = js ''64c000000000000000000001'', now = 1000,
           randomBytes = (\<lambda>k. Some (js ''000102030405060708090a0b0c0d0e0f'')),
           sendMail = (\<lambda>k m. True)\<rparr>"

definition db2 :: db where
  "db2 = \<lparr>Users = [alice, bob], Campaigns = [], Clicks = [], Credentials = []\<rparr>"

definition env2 :: Env where
  "env2 = env1\<lparr>sendMail := (\<lambda>k m. k = 0)\<rparr>"

definition body1 :: "objectId list \<Rightarrow> jsstring \<Rightarrow> CampaignBody" where
  "body1 ts text =
     \<lparr>body_name = Some (js ''Q3''), body_customSubject = Some (js ''Hola''),
      body_customBody = Some text, body_targetUsers = Some ts, body_templateId = None,
      body_id = None, body_status = None, body_clicks = None, body_credentials = None,
      body_sentAt = None\<rparr>"

definition blank_body :: CampaignBody where
  "blank_body = (body1 [user_id alice] (js ''Ver [LINK]''))\<lparr>body_customSubject := Some [32, 9, 160]\<rparr>"

definition campaign1 :: Campaign where
  "campaign1 = newCampaign env1 (body1 [user_id alice] (js ''Ver [LINK]''))"

definition track1 :: TrackRequest where
  "track1 = \<lparr>param_campaignId = newId env1, param_userId = user_id alice,
             param_token = js ''000102030405060708090a0b0c0d0e0f'',
             req_ip = Some (js ''10.0.0.7''), req_remoteAddress = None,
             req_forwardedFor = None, req_userAgent = None\<rparr>"


definition phish1 :: PhishingBody where
  "phish1 = \<lparr>ph_campaignId = Some (newId env1), ph_userId = Some (user_id alice),
             ph_email = Some (js ''alice@empresa.com''), ph_password = Some (js ''hunter2'')\<rparr>"




definition db_sent :: db where
  "db_sent = db1\<lparr>Campaigns := [campaign1]\<rparr>"

definition ghost_click :: ClickBody where
  "ghost_click = \<lparr>cb_campaignId = ghost, cb_userId = ghost, cb_token = Some (js ''ab''),
                  cb_ipAddress = Some (js ''10.0.0.7''), cb_userAgent = Some (js ''curl'')\<rparr>"

definition ghost_track :: TrackRequest where
  "ghost_track = \<lparr>param_campaignId = ghost, param_userId = ghost, param_token = js ''ab'',
             req_ip = Some (js ''10.0.0.7''), req_remoteAddress = None,
             req_forwardedFor = None, req_userAgent = Some (js ''curl'')\<rparr>"

text \<open>
  Three users: the second has submitted the form twice, the first has clicked three
  times, the third has done neither.
\<close>

definition carol :: User where
  "carol = \<lparr>user_id = js ''64b000000000000000000003'', user_name = Some (js ''Carol''),
            email = Some (js ''carol@empresa.com''), department = Some (js ''IT''),
            createdAt = 0\<rparr>"

definition db_risk :: db where
  "db_risk =
     \<lparr>Users = [alice, bob, carol], Campaigns = [],
      Clicks = map (\<lambda>t. \<lparr>campaignId = ghost, userId = user_id alice, token = None,
                           ipAddress = None, userAgent = None, timestamp = t\<rparr>) [1, 2, 3],
      Credentials = map (\<lambda>t. \<lparr>cred_campaignId = ghost, cred_userId = user_id bob,
                                attempted = True, cred_timestamp = t\<rparr>) [1, 2]\<rparr>"

text \<open>A campaign with three targets, one of them unknown, and one recorded click.\<close>

definition campaign3 :: Campaign where
  "campaign3 = newCampaign env1 (body1 [user_id alice, user_id bob, ghost] (js ''Ver [LINK]''))"

definition db_rates :: db where
  "db_rates = \<lparr>Users = [alice, bob], Campaigns = [campaign3],
                Clicks = [clickOfTrack 2000 track1], Credentials = []\<rparr>"

section \<open>Verified properties\<close>

subsection \<open>Risk classification\<close>

lemma label_en_inj: "label_en a = label_en b \<longleftrightarrow> a = b"
  by (cases a; cases b) (simp_all add: js_def)

lemma label_es_inj: "label_es a = label_es b \<longleftrightarrow> a = b"
  by (cases a; cases b) (simp_all add: js_def)

text \<open>
  Claim C4. Risk classification is a total function of the two counts alone, with the
  precedence of the specification: more than one credential attempt is High, otherwise
  more than two clicks is Medium, otherwise Low. Both inlined conditionals of the code
  print the label of the level the specification's rule gives, the labels tell the levels
  apart, and the four examples of the specification come out as stated.
\<close>

theorem C4_risk_classification:
  "risk_en userClicks userCreds = label_en (spec_score userClicks userCreds)
   \<and> risk_es userClicks userCreds = label_es (spec_score userClicks userCreds)
   \<and> (risk_en userClicks userCreds = label_en High) = (userCreds > 1)
   \<and> (risk_en userClicks userCreds = label_en Medium) = (\<not> userCreds > 1 \<and> userClicks > 2)
   \<and> (risk_en userClicks userCreds = label_en Low) = (\<not> userCreds > 1 \<and> \<not> userClicks > 2)
   \<and> risk_en 0 0 = label_en Low \<and> risk_es 0 0 = label_es Low
   \<and> risk_en 3 0 = label_en Medium \<and> risk_es 3 0 = label_es Medium
   \<and> risk_en 0 2 = label_en High \<and> risk_es 0 2 = label_es High
   \<and> risk_en 5 2 = label_en High \<and> risk_es 5 2 = label_es High"
proof -
  have en: "risk_en c k = label_en (spec_score c k)" for c k
    by (simp add: risk_en_def spec_score_def)
  have es: "risk_es c k = label_es (spec_score c k)" for c k
    by (simp add: risk_es_def spec_score_def)
  have lv: "(spec_score userClicks userCreds = High) = (userCreds > 1)"
    "(spec_score userClicks userCreds = Medium) = (\<not> userCreds > 1 \<and> userClicks > 2)"
    "(spec_score userClicks userCreds = Low) = (\<not> userCreds > 1 \<and> \<not> userClicks > 2)"
    by (simp_all add: spec_score_def)
  have ex: "spec_score 0 0 = Low" "spec_score 3 0 = Medium" "spec_score 0 2 = High"
    "spec_score 5 2 = High"
    by (simp_all add: spec_score_def)
  show ?thesis
    by (simp only: en es label_en_inj label_es_inj lv ex simp_thms)
qed

text \<open>
  The user statistics classify each user by the rule, from the two counts of the entry.
\<close>

lemma getStatisticsUsers_risk:
  "e \<in> set (getStatisticsUsers s) \<Longrightarrow>
   st_risk e = label_es (spec_score (st_clicks e) (st_credentials e))"
  by (auto simp: getStatisticsUsers_def risk_es_def spec_score_def)

subsection \<open>Campaign dispatch\<close>

lemma sendAll_counts:
  "sendAll v env cid subj body k us (a, b, out) = (a', b', out') \<Longrightarrow> a' + b' = a + b + length us"
proof (induction us arbitrary: k a b out)
  case Nil
  then show ?case by simp
next
  case (Cons u us)
  then show ?case
    by (auto split: option.splits if_splits simp: Let_def)
qed

lemma sendAll_outbox:
  "snd (snd (sendAll v env cid subj body k us (a, b, out))) =
     out @ map (\<lambda>(i, u). mailFor v cid subj body u (the (randomBytes env i)))
            (filter (\<lambda>(i, u). randomBytes env i \<noteq> None) (enumerate k us))"
proof (induction us arbitrary: k a b out)
  case Nil
  then show ?case by simp
next
  case (Cons u us)
  then show ?case
    by (auto split: option.splits simp: Let_def)
qed

lemma length_filter_targets:
  assumes "distinct (map user_id us)" "distinct ts" "set ts \<subseteq> user_id ` set us"
  shows "length (filter (\<lambda>u. user_id u \<in> set ts) us) = length ts"
proof -
  let ?f = "filter (\<lambda>u. user_id u \<in> set ts) us"
  have d: "distinct (map user_id ?f)"
    using assms(1) by (simp add: distinct_map_filter)
  have "set (map user_id ?f) = set ts"
    using assms(3) by auto
  then have "card (set (map user_id ?f)) = card (set ts)" by simp
  moreover have "card (set (map user_id ?f)) = length (map user_id ?f)"
    using d by (rule distinct_card)
  moreover have "card (set ts) = length ts"
    using assms(2) by (rule distinct_card)
  ultimately show ?thesis by simp
qed

lemma falsy_trim_iff: "falsy_trim v \<longleftrightarrow> (\<forall>n. v = Some n \<longrightarrow> trim n = [])"
  by (cases v) (auto simp: falsy_trim_def trim_def)

lemma nl2br_id: "10 \<notin> set t \<Longrightarrow> nl2br t = t"
  by (induction t) (auto simp: nl2br_def)

text \<open>What a dispatch that passes validation returns, in one equation.\<close>

lemma postCampaigns_Created:
  assumes "postCampaigns v env b s = (Created c msg sent failed, s', out)"
  shows "c = newCampaign env b"
    and "s' = s\<lparr>Campaigns := Campaigns s @ [c]\<rparr>"
    and "sendAll v env (campaign_id c) (customSubject c) (customBody c) 0
           (filter (\<lambda>u. user_id u \<in> set (targetUsers c)) (Users s)) (0, 0, [])
         = (sent, failed, out)"
    and "\<not> falsy_trim (body_name b)" "\<not> falsy_trim (body_customSubject b)"
    and "\<not> falsy_trim (body_customBody b)"
    and "\<exists>ts. body_targetUsers b = Some ts \<and> ts \<noteq> []"
    and "campaign_id c \<notin> set (map campaign_id (Campaigns s))"
  using assms
  by (auto simp: postCampaigns_def Let_def split: if_splits prod.splits option.splits)

text \<open>
  Claim C1, as amended. For every dispatch that passes validation, and every pattern of
  failures of the token source and of the mail transport, emailsSent + emailsFailed is
  the number of stored users whose id occurs in the target list of the request. It is
  the length N of that list when the stored ids are distinct and the target ids are
  distinct and all stored.
\<close>

theorem C1_sent_plus_failed:
  assumes "postCampaigns v env b s = (Created c msg sent failed, s', out)"
  shows "sent + failed = length (filter (\<lambda>u. user_id u \<in> set (targetUsers c)) (Users s))
         \<and> body_targetUsers b = Some (targetUsers c)
         \<and> (distinct (map user_id (Users s)) \<and> distinct (targetUsers c)
              \<and> set (targetUsers c) \<subseteq> user_id ` set (Users s)
            \<longrightarrow> sent + failed = length (targetUsers c))"
proof -
  let ?us = "filter (\<lambda>u. user_id u \<in> set (targetUsers c)) (Users s)"
  have "sent + failed = 0 + 0 + length ?us"
    using postCampaigns_Created(3)[OF assms] by (rule sendAll_counts)
  then have n: "sent + failed = length ?us" by simp
  have t: "body_targetUsers b = Some (targetUsers c)"
    using postCampaigns_Created(1,7)[OF assms] by (auto simp: newCampaign_def)
  show ?thesis
    using n t by (simp add: length_filter_targets)
qed

text \<open>Two stored recipients, the second send fails: one sent, one failed, N = 2.\<close>

theorem C1_witness:
  "postCampaigns Sandbox env2 (body1 [user_id alice, user_id bob] (js ''Ver [LINK]'')) db2
     = (Created (newCampaign env2 (body1 [user_id alice, user_id bob] (js ''Ver [LINK]'')))
          (dispatchMessage Sandbox 1 1) 1 1,
        db2\<lparr>Campaigns := [newCampaign env2 (body1 [user_id alice, user_id bob] (js ''Ver [LINK]''))]\<rparr>,
        [mailFor Sandbox (newId env2) (js ''Hola'') (js ''Ver [LINK]'') alice
           (js ''000102030405060708090a0b0c0d0e0f''),
         mailFor Sandbox (newId env2) (js ''Hola'') (js ''Ver [LINK]'') bob
           (js ''000102030405060708090a0b0c0d0e0f'')])
   \<and> (1::nat) + 1 = length [user_id alice, user_id bob]"
proof -
  let ?b = "body1 [user_id alice, user_id bob] (js ''Ver [LINK]'')"
  have h: "postCampaigns Sandbox env2 ?b db2
     = (Created (newCampaign env2 ?b) (dispatchMessage Sandbox 1 1) 1 1,
        db2\<lparr>Campaigns := [newCampaign env2 ?b]\<rparr>,
        [mailFor Sandbox (newId env2) (js ''Hola'') (js ''Ver [LINK]'') alice
           (js ''000102030405060708090a0b0c0d0e0f''),
         mailFor Sandbox (newId env2) (js ''Hola'') (js ''Ver [LINK]'') bob
           (js ''000102030405060708090a0b0c0d0e0f'')])"
    by (simp add: postCampaigns_def newCampaign_def body1_def db2_def env2_def env1_def
        alice_def bob_def falsy_trim_def trim_def isWhiteSpace_def js_def Let_def)
  show ?thesis
    using h C1_sent_plus_failed [OF h] by simp
qed

text \<open>
  The claim as stated fails: a target id that no stored user has is neither sent nor
  failed. One target, no matching user: the answer is 201 with 0 sent and 0 failed.
\<close>

theorem C1_counterexample:
  "fst (postCampaigns Sandbox env1 (body1 [ghost] (js ''Ver [LINK]'')) db1)
     = Created (newCampaign env1 (body1 [ghost] (js ''Ver [LINK]'')))
         (dispatchMessage Sandbox 0 0) 0 0
   \<and> body_targetUsers (body1 [ghost] (js ''Ver [LINK]'')) = Some [ghost]
   \<and> (0::nat) + 0 \<noteq> length [ghost]"
  by (simp add: postCampaigns_def newCampaign_def body1_def db1_def env1_def
      alice_def ghost_def falsy_trim_def trim_def isWhiteSpace_def js_def Let_def)

text \<open>
  Claim C5. A dispatch request whose name, subject or body is absent or empty after
  trimming, or whose target list is absent or empty, is answered 400 with a validation
  error; the database is the one before the request and no mail is handed to the
  transport.
\<close>

theorem C5_validation_rejects:
  assumes "(\<forall>n. body_name b = Some n \<longrightarrow> trim n = [])
         \<or> (\<forall>n. body_customSubject b = Some n \<longrightarrow> trim n = [])
         \<or> (\<forall>n. body_customBody b = Some n \<longrightarrow> trim n = [])
         \<or> (\<forall>ts. body_targetUsers b = Some ts \<longrightarrow> ts = [])"
  shows "\<exists>e. postCampaigns v env b s = (BadRequest e, s, [])"
proof -
  have "falsy_trim (body_name b) \<or> falsy_trim (body_customSubject b)
      \<or> falsy_trim (body_customBody b)
      \<or> (case body_targetUsers b of None \<Rightarrow> True | Some ts \<Rightarrow> length ts = 0)"
    using assms by (auto simp: falsy_trim_iff split: option.splits)
  then show ?thesis
    by (auto simp: postCampaigns_def)
qed

text \<open>A subject of a space, a tab and a no-break space: 400, nothing written or sent.\<close>

theorem C5_witness:
  "trim (the (body_customSubject blank_body)) = []
   \<and> postCampaigns Sandbox env1 blank_body db1 = (BadRequest SubjectRequired, db1, [])"
proof -
  have h: "(\<forall>n. body_name blank_body = Some n \<longrightarrow> trim n = [])
         \<or> (\<forall>n. body_customSubject blank_body = Some n \<longrightarrow> trim n = [])
         \<or> (\<forall>n. body_customBody blank_body = Some n \<longrightarrow> trim n = [])
         \<or> (\<forall>ts. body_targetUsers blank_body = Some ts \<longrightarrow> ts = [])"
    by (simp add: blank_body_def body1_def trim_def isWhiteSpace_def)
  have e: "postCampaigns Sandbox env1 blank_body db1 = (BadRequest SubjectRequired, db1, [])"
    using C5_validation_rejects [OF h, of Sandbox env1 db1]
    by (simp add: postCampaigns_def blank_body_def body1_def falsy_trim_def trim_def
        isWhiteSpace_def js_def)
  show ?thesis
    using e by (simp add: blank_body_def body1_def trim_def isWhiteSpace_def)
qed

subsection \<open>The mails\<close>

lemma getSubstitution_plain: "36 \<notin> set rep \<Longrightarrow> getSubstitution matched before after rep = rep"
  by (induction matched before after rep rule: getSubstitution.induct) auto

lemma indexOf_absent: "\<not> sublist pat s \<Longrightarrow> indexOf pat s = None"
proof (induction s)
  case Nil
  then show ?case by auto
next
  case (Cons c cs)
  then show ?case by (simp add: sublist_Cons_right)
qed

lemma indexOf_first:
  "prefix pat (drop p s) \<Longrightarrow> p \<le> length s \<Longrightarrow> (\<forall>i<p. \<not> prefix pat (drop i s)) \<Longrightarrow>
   indexOf pat s = Some p"
proof (induction s arbitrary: p)
  case Nil
  then show ?case by simp
next
  case (Cons c cs)
  show ?case
  proof (cases p)
    case 0
    then show ?thesis using Cons.prems(1) by simp
  next
    case (Suc q)
    have n: "\<not> prefix pat (c # cs)"
      using Cons.prems(3) Suc by (metis drop0 zero_less_Suc)
    have "\<forall>i<q. \<not> prefix pat (drop i cs)"
      using Cons.prems(3) Suc by (metis Suc_less_eq drop_Suc_Cons)
    then have "indexOf pat cs = Some q"
      using Cons.IH [of q] Cons.prems(1,2) Suc by simp
    then show ?thesis using n Suc by simp
  qed
qed

lemma js_replace_absent: "\<not> sublist pat s \<Longrightarrow> js_replace s pat rep = s"
  by (simp add: js_replace_def indexOf_absent)

lemma js_replace_first:
  assumes "\<forall>i<length pre. \<not> prefix pat (drop i (pre @ pat @ post))"
  shows "js_replace (pre @ pat @ post) pat rep = pre @ getSubstitution pat pre post rep @ post"
proof -
  have "indexOf pat (pre @ pat @ post) = Some (length pre)"
    by (rule indexOf_first) (use assms in simp_all)
  then show ?thesis
    by (simp add: js_replace_def Let_def)
qed

text \<open>
  Claim C9, as amended. A dispatch that passes validation hands the transport one mail
  for each recipient for which a token was drawn, in order. Its text part is the body
  in which the first \<^verbatim>\<open>[LINK]\<close> is replaced by the recipient's tracking URL, base,
  \<^verbatim>\<open>/track/\<close>, campaign id, user id and token: a body without \<^verbatim>\<open>[LINK]\<close> is sent as
  it is, and a URL without dollar sign is inserted as it is (one with dollar signs is
  expanded as \<^verbatim>\<open>String.prototype.replace\<close> does). Its HTML part is that same text with
  every line feed replaced by \<^verbatim>\<open><br>\<close> and every other code unit kept, HTML
  metacharacters included, between \<^verbatim>\<open><p>\<close> and \<^verbatim>\<open></p>\<close> in the sandbox version and
  inside the styled \<^verbatim>\<open><div>\<close> in the SMTP version.
\<close>

theorem C9_mail_rendering:
  assumes "postCampaigns v env b s = (Created c msg sent failed, s', out)"
  shows "out = map (\<lambda>(k, u).
                 let url = baseUrl v @ js ''/track/'' @ campaign_id c @ js ''/'' @ user_id u
                             @ js ''/'' @ the (randomBytes env k);
                     text = js_replace (the (body_customBody b)) (js ''[LINK]'') url;
                     br = concat (map (\<lambda>ch. if ch = 10 then js ''<br>'' else [ch]) text)
                 in \<lparr>mail_from = fromHeader v, mail_to = email u,
                     mail_subject = the (body_customSubject b), mail_text = text,
                     mail_html =
                       (case v of
                          Sandbox \<Rightarrow> js ''<p>'' @ br @ js ''</p>''
                        | Smtp base fromEmail fromName \<Rightarrow>
                            js ''<div style='' @ [34]
                              @ js ''font-family: Arial, sans-serif; max-width: 600px; margin: 0 auto;''
                              @ [34] @ js ''>'' @ [10] @ replicate 14 32 @ br @ [10]
                              @ replicate 12 32 @ js ''</div>'')\<rparr>)
               (filter (\<lambda>(k, u). randomBytes env k \<noteq> None)
                  (enumerate 0 (filter (\<lambda>u. user_id u \<in> set (the (body_targetUsers b))) (Users s))))
       \<and> (\<forall>body url. \<not> sublist (js ''[LINK]'') body \<longrightarrow> js_replace body (js ''[LINK]'') url = body)
       \<and> (\<forall>pre post url.
             (\<forall>i<length pre. \<not> prefix (js ''[LINK]'') (drop i (pre @ js ''[LINK]'' @ post)))
             \<longrightarrow> js_replace (pre @ js ''[LINK]'' @ post) (js ''[LINK]'') url
                   = pre @ getSubstitution (js ''[LINK]'') pre post url @ post
                 \<and> (36 \<notin> set url \<longrightarrow>
                      js_replace (pre @ js ''[LINK]'' @ post) (js ''[LINK]'') url
                        = pre @ url @ post))
       \<and> (\<forall>m \<in> set out. \<forall>ch. ch \<noteq> 10 \<longrightarrow>
             count_list (mail_text m) ch \<le> count_list (mail_html m) ch)"
proof -
  let ?us = "filter (\<lambda>u. user_id u \<in> set (targetUsers c)) (Users s)"
  let ?mk = "\<lambda>(k, u). mailFor v (campaign_id c) (customSubject c) (customBody c) u
                     (the (randomBytes env k))"
  have c: "c = newCampaign env b"
    using postCampaigns_Created(1) [OF assms] .
  have f: "customBody c = the (body_customBody b)" "customSubject c = the (body_customSubject b)"
    "targetUsers c = the (body_targetUsers b)"
    by (simp_all add: c newCampaign_def)
  have "snd (snd (sendAll v env (campaign_id c) (customSubject c) (customBody c) 0 ?us (0, 0, [])))
        = out"
    using postCampaigns_Created(3) [OF assms] by simp
  then have o: "out = map ?mk (filter (\<lambda>(k, u). randomBytes env k \<noteq> None) (enumerate 0 ?us))"
    by (simp add: sendAll_outbox)
  have mk: "mailFor v (campaign_id c) (customSubject c) (customBody c) u
               (the (randomBytes env k)) =
      (let url = baseUrl v @ js ''/track/'' @ campaign_id c @ js ''/'' @ user_id u
                   @ js ''/'' @ the (randomBytes env k);
           text = js_replace (the (body_customBody b)) (js ''[LINK]'') url;
           br = concat (map (\<lambda>ch. if ch = 10 then js ''<br>'' else [ch]) text)
       in \<lparr>mail_from = fromHeader v, mail_to = email u,
           mail_subject = the (body_customSubject b), mail_text = text,
           mail_html =
             (case v of
                Sandbox \<Rightarrow> js ''<p>'' @ br @ js ''</p>''
              | Smtp base fromEmail fromName \<Rightarrow>
                  js ''<div style='' @ [34]
                    @ js ''font-family: Arial, sans-serif; max-width: 600px; margin: 0 auto;''
                    @ [34] @ js ''>'' @ [10] @ replicate 14 32 @ br @ [10]
                    @ replicate 12 32 @ js ''</div>'')\<rparr>)" for k u
    by (cases v) (simp_all add: mailFor_def trackingUrl_def nl2br_def Let_def f)
  have first: "out = map (\<lambda>(k, u).
                 let url = baseUrl v @ js ''/track/'' @ campaign_id c @ js ''/'' @ user_id u
                             @ js ''/'' @ the (randomBytes env k);
                     text = js_replace (the (body_customBody b)) (js ''[LINK]'') url;
                     br = concat (map (\<lambda>ch. if ch = 10 then js ''<br>'' else [ch]) text)
                 in \<lparr>mail_from = fromHeader v, mail_to = email u,
                     mail_subject = the (body_customSubject b), mail_text = text,
                     mail_html =
                       (case v of
                          Sandbox \<Rightarrow> js ''<p>'' @ br @ js ''</p>''
                        | Smtp base fromEmail fromName \<Rightarrow>
                            js ''<div style='' @ [34]
                              @ js ''font-family: Arial, sans-serif; max-width: 600px; margin: 0 auto;''
                              @ [34] @ js ''>'' @ [10] @ replicate 14 32 @ br @ [10]
                              @ replicate 12 32 @ js ''</div>'')\<rparr>)
               (filter (\<lambda>(k, u). randomBytes env k \<noteq> None)
                  (enumerate 0 (filter (\<lambda>u. user_id u \<in> set (the (body_targetUsers b))) (Users s))))"
    unfolding o f(3)
  proof (rule arg_cong [where f = "\<lambda>g. map g _"], rule ext)
    fix x :: "nat \<times> User"
    show "(case x of (k, u) \<Rightarrow> mailFor v (campaign_id c) (customSubject c) (customBody c) u
                     (the (randomBytes env k)))
        = (case x of (k, u) \<Rightarrow>
                 let url = baseUrl v @ js ''/track/'' @ campaign_id c @ js ''/'' @ user_id u
                             @ js ''/'' @ the (randomBytes env k);
                     text = js_replace (the (body_customBody b)) (js ''[LINK]'') url;
                     br = concat (map (\<lambda>ch. if ch = 10 then js ''<br>'' else [ch]) text)
                 in \<lparr>mail_from = fromHeader v, mail_to = email u,
                     mail_subject = the (body_customSubject b), mail_text = text,
                     mail_html =
                       (case v of
                          Sandbox \<Rightarrow> js ''<p>'' @ br @ js ''</p>''
                        | Smtp base fromEmail fromName \<Rightarrow>
                            js ''<div style='' @ [34]
                              @ js ''font-family: Arial, sans-serif; max-width: 600px; margin: 0 auto;''
                              @ [34] @ js ''>'' @ [10] @ replicate 14 32 @ br @ [10]
                              @ replicate 12 32 @ js ''</div>'')\<rparr>)"
      by (cases x) (simp only: prod.case mk)
  qed
  have cnt: "count_list t ch \<le> count_list (nl2br t) ch" if "ch \<noteq> 10" for t ch
    using that by (induction t) (auto simp: nl2br_def js_def)
  have frame: "\<exists>a z. htmlBody v t = a @ nl2br t @ z" for t
  proof (cases v)
    case Sandbox
    then show ?thesis by auto
  next
    case (Smtp base fromEmail fromName)
    have "htmlBody v t =
        (js ''<div style='' @ [34]
           @ js ''font-family: Arial, sans-serif; max-width: 600px; margin: 0 auto;'' @ [34]
           @ js ''>'' @ [10] @ replicate 14 32) @ nl2br t @ ([10] @ replicate 12 32 @ js ''</div>'')"
      unfolding Smtp by simp
    then show ?thesis by blast
  qed
  have html: "count_list t ch \<le> count_list (htmlBody v t) ch" if "ch \<noteq> 10" for t ch
  proof -
    obtain a z where "htmlBody v t = a @ nl2br t @ z" using frame by blast
    then show ?thesis using cnt [OF that, of t] by simp
  qed
  have keep: "count_list (mail_text m) ch \<le> count_list (mail_html m) ch"
    if "m \<in> set out" "ch \<noteq> 10" for m ch
    using that(1) html [OF that(2)] unfolding o by (auto simp: mailFor_def Let_def)
  show ?thesis
    using first keep by (simp add: js_replace_absent js_replace_first getSubstitution_plain)
qed

text \<open>
  A body with the placeholder, a line feed and a less-than sign, sent to one stored
  user: the URL stands where the placeholder stood, the line feed is \<^verbatim>\<open><br>\<close> and the
  less-than sign is itself.
\<close>

theorem C9_witness:
  "postCampaigns Sandbox env1 (body1 [user_id alice] (js ''Ver [LINK]'' @ [10, 60])) db1
     = (Created (newCampaign env1 (body1 [user_id alice] (js ''Ver [LINK]'' @ [10, 60])))
          (dispatchMessage Sandbox 1 0) 1 0,
        db1\<lparr>Campaigns := [newCampaign env1 (body1 [user_id alice] (js ''Ver [LINK]'' @ [10, 60]))]\<rparr>,
        [\<lparr>mail_from = fromHeader Sandbox, mail_to = Some (js ''alice@empresa.com''),
          mail_subject = js ''Hola'',
          mail_text = js ''Ver http://localhost:3000/track/64c000000000000000000001/64b000000000000000000001/000102030405060708090a0b0c0d0e0f'' @ [10, 60],
          mail_html = js ''<p>Ver http://localhost:3000/track/64c000000000000000000001/64b000000000000000000001/000102030405060708090a0b0c0d0e0f<br><</p>''\<rparr>])"
proof -
  let ?b = "body1 [user_id alice] (js ''Ver [LINK]'' @ [10, 60])"
  let ?m = "\<lparr>mail_from = fromHeader Sandbox, mail_to = Some (js ''alice@empresa.com''),
          mail_subject = js ''Hola'',
          mail_text = js ''Ver http://localhost:3000/track/64c000000000000000000001/64b000000000000000000001/000102030405060708090a0b0c0d0e0f'' @ [10, 60],
          mail_html = js ''<p>Ver http://localhost:3000/track/64c000000000000000000001/64b000000000000000000001/000102030405060708090a0b0c0d0e0f<br><</p>''\<rparr>"
  have h: "postCampaigns Sandbox env1 ?b db1
     = (Created (newCampaign env1 ?b) (dispatchMessage Sandbox 1 0) 1 0,
        db1\<lparr>Campaigns := [newCampaign env1 ?b]\<rparr>, [?m])"
    by (simp add: postCampaigns_def newCampaign_def body1_def db1_def env1_def mailFor_def
        trackingUrl_def js_replace_def alice_def falsy_trim_def trim_def isWhiteSpace_def
        js_def Let_def nl2br_def)
  show ?thesis
    using h C9_mail_rendering [OF h] by simp
qed

text \<open>
  In the SMTP version the base of the URL comes from the environment; a base with
  \<^verbatim>\<open>$&\<close> in it has the placeholder itself put back there.
\<close>

lemma js_replace_dollar:
  "js_replace (js ''Ver [LINK]'') (js ''[LINK]'') (js ''http://h/$&/track'')
     = js ''Ver http://h/[LINK]/track''"
  by (simp add: js_replace_def js_def)

text \<open>
  The claim as stated fails: the HTML part is not escaped. For the body
  \<^verbatim>\<open><b>Hola</b>\<close> the transport gets \<^verbatim>\<open><p><b>Hola</b></p>\<close>, in which the escaped
  rendering of the body does not occur.
\<close>

theorem C9_counterexample:
  "map mail_text (snd (snd (postCampaigns Sandbox env1 (body1 [user_id alice] (js ''<b>Hola</b>'')) db1)))
     = [js ''<b>Hola</b>'']
   \<and> map mail_html (snd (snd (postCampaigns Sandbox env1 (body1 [user_id alice] (js ''<b>Hola</b>'')) db1)))
     = [js ''<p><b>Hola</b></p>'']
   \<and> spec_escapeHtml (js ''<b>Hola</b>'') = js ''&lt;b&gt;Hola&lt;/b&gt;''
   \<and> \<not> sublist (js ''&lt;b&gt;Hola&lt;/b&gt;'') (js ''<p><b>Hola</b></p>'')"
proof -
  have a: "snd (snd (postCampaigns Sandbox env1 (body1 [user_id alice] (js ''<b>Hola</b>'')) db1))
     = [\<lparr>mail_from = fromHeader Sandbox, mail_to = Some (js ''alice@empresa.com''),
          mail_subject = js ''Hola'', mail_text = js ''<b>Hola</b>'',
          mail_html = js ''<p><b>Hola</b></p>''\<rparr>]"
    by (simp add: postCampaigns_def newCampaign_def body1_def db1_def env1_def mailFor_def
        trackingUrl_def js_replace_def alice_def falsy_trim_def trim_def isWhiteSpace_def
        js_def Let_def nl2br_def)
  have b: "spec_escapeHtml (js ''<b>Hola</b>'') = js ''&lt;b&gt;Hola&lt;/b&gt;''"
    by (simp add: spec_escapeHtml_def js_def)
  have c: "\<not> sublist (js ''&lt;b&gt;Hola&lt;/b&gt;'') (js ''<p><b>Hola</b></p>'')"
    by code_simp
  show ?thesis
    unfolding a using b c by simp
qed

subsection \<open>Event tracking and the counters\<close>

lemma findByIdAndUpdate_ids:
  "(\<And>c. campaign_id (f c) = campaign_id c) \<Longrightarrow>
   map campaign_id (findByIdAndUpdate i f cs) = map campaign_id cs"
  by (induction cs) auto


lemma findByIdAndUpdate_absent:
  "i \<notin> set (map campaign_id cs) \<Longrightarrow> findByIdAndUpdate i f cs = cs"
  by (induction cs) auto




lemma update_keeps_unique:
  "(\<And>c. campaign_id (f c) = campaign_id c) \<Longrightarrow> unique_ids s \<Longrightarrow>
   unique_ids (s\<lparr>Campaigns := findByIdAndUpdate i f (Campaigns s)\<rparr>)"
  by (simp add: unique_ids_def findByIdAndUpdate_ids)








lemma getTrack_eq:
  "getTrack t r s =
     (if findCampaignById (param_campaignId r) s = None \<or> findUserById (param_userId r) s = None
      then (NotFound, s)
      else (Redirect (js ''/phishing/'' @ param_campaignId r @ js ''/'' @ param_userId r),
            click_recorded (clickOfTrack t r) s))"
  by (simp add: getTrack_def Let_def click_recorded_def clickOfTrack_def)

lemma postApiTrackClick_eq:
  "postApiTrackClick t b s = (Success, click_recorded (clickOfBody t b) s)"
  by (simp add: postApiTrackClick_def Let_def click_recorded_def clickOfBody_def)

lemma postTrackPhishing_eq:
  "postTrackPhishing t b s =
     (if \<not> truthy (ph_campaignId b) \<or> \<not> truthy (ph_userId b) then (MissingParameters, s)
      else if findCampaignById (the (ph_campaignId b)) s = None
              \<or> findUserById (the (ph_userId b)) s = None
        then (NotFound, s)
      else (Success,
            credential_recorded
              \<lparr>cred_campaignId = the (ph_campaignId b), cred_userId = the (ph_userId b),
               attempted = True, cred_timestamp = t\<rparr> s))"
  by (simp add: postTrackPhishing_def Let_def credential_recorded_def)














text \<open>
  Claim C3 fails on the code: the manual click handler looks nothing up. With an empty
  database, a request that names an unknown campaign and an unknown user is answered
  200 and leaves a Click event behind, where the link handler answers 404 and writes
  nothing.
\<close>

theorem C3_manual_click_unknown_ids:
  "postApiTrackClick 1000 ghost_click db0
     = (Success, db0\<lparr>Clicks := [clickOfBody 1000 ghost_click]\<rparr>)
   \<and> findCampaignById (cb_campaignId ghost_click) db0 = None
   \<and> findUserById (cb_userId ghost_click) db0 = None
   \<and> getTrack 1000 ghost_track db0 = (NotFound, db0)"
  by (simp add: postApiTrackClick_eq getTrack_eq click_recorded_def db0_def
      findCampaignById_def findUserById_def)

text \<open>
  Claim C6. The decoy form's handler never stores the submitted secret: its answer and
  the database after it are the same for any two requests that differ in the password
  only (and in the email only), and what a successful call appends is the Credential
  event of the campaign id, the user id, \<^verbatim>\<open>attempted = true\<close> and the time; a call
  that does not succeed leaves the database as it was.
\<close>

theorem C6_password_not_persisted:
  "postTrackPhishing t (b\<lparr>ph_password := p\<rparr>) s = postTrackPhishing t (b\<lparr>ph_password := q\<rparr>) s
   \<and> postTrackPhishing t (b\<lparr>ph_email := p\<rparr>) s = postTrackPhishing t (b\<lparr>ph_email := q\<rparr>) s
   \<and> (fst (postTrackPhishing t b s) = Success \<longrightarrow>
        Credentials (snd (postTrackPhishing t b s))
          = Credentials s @ [\<lparr>cred_campaignId = the (ph_campaignId b),
                               cred_userId = the (ph_userId b), attempted = True,
                               cred_timestamp = t\<rparr>])
   \<and> (fst (postTrackPhishing t b s) \<noteq> Success \<longrightarrow> snd (postTrackPhishing t b s) = s)"
  by (simp add: postTrackPhishing_eq credential_recorded_def)

text \<open>The same form with two different passwords, on a database that has the campaign.\<close>

theorem C6_witness:
  "postTrackPhishing 4000 phish1 db_sent
     = (Success,
        db_sent\<lparr>Credentials := [\<lparr>cred_campaignId = newId env1, cred_userId = user_id alice,
                                   attempted = True, cred_timestamp = 4000\<rparr>],
                Campaigns := [campaign1\<lparr>credentials := 1\<rparr>]\<rparr>)
   \<and> postTrackPhishing 4000 (phish1\<lparr>ph_password := Some (js ''correct horse'')\<rparr>) db_sent
     = postTrackPhishing 4000 phish1 db_sent"
proof -
  have e: "postTrackPhishing 4000 phish1 db_sent
     = (Success,
        db_sent\<lparr>Credentials := [\<lparr>cred_campaignId = newId env1, cred_userId = user_id alice,
                                   attempted = True, cred_timestamp = 4000\<rparr>],
                Campaigns := [campaign1\<lparr>credentials := 1\<rparr>]\<rparr>)"
    by (simp add: postTrackPhishing_eq findCampaignById_def findUserById_def db_sent_def db1_def
        campaign1_def newCampaign_def body1_def phish1_def env1_def alice_def
        credential_recorded_def inc_credentials_def truthy_def js_def)
  have "postTrackPhishing 4000 (phish1\<lparr>ph_password := Some (js ''correct horse'')\<rparr>) db_sent
      = postTrackPhishing 4000 (phish1\<lparr>ph_password := Some (js ''hunter2'')\<rparr>) db_sent"
    using C6_password_not_persisted [where t = 4000 and b = phish1 and s = db_sent
        and p = "Some (js ''correct horse'')" and q = "Some (js ''hunter2'')"] by blast
  moreover have "phish1\<lparr>ph_password := Some (js ''hunter2'')\<rparr> = phish1"
    by (simp add: phish1_def)
  ultimately show ?thesis
    using e by simp
qed

subsection \<open>Numbers and their printing\<close>

text \<open>
  The rounding of the model is the rounding of binary64: for positive \<open>N\<close> and \<open>D\<close>
  the mantissa has 53 bits and the double is within half a unit in the last place of
  \<open>N / D\<close>.
\<close>

lemma bits_bounds: "0 < n \<Longrightarrow> 2 ^ (bits n - 1) \<le> n \<and> n < 2 ^ bits n"
proof (induction n rule: bits.induct)
  case (1 n)
  show ?case
  proof (cases "n div 2 = 0")
    case True
    then have "n = 1" using "1.prems" by presburger
    then show ?thesis by (simp add: bits.simps)
  next
    case False
    then have ih: "2 ^ (bits (n div 2) - 1) \<le> n div 2 \<and> n div 2 < 2 ^ bits (n div 2)"
      using "1.IH" "1.prems" by simp
    have b: "bits n = Suc (bits (n div 2))"
      using "1.prems" by (subst bits.simps) simp
    have p: "0 < bits (n div 2)"
      using False by (subst bits.simps) simp
    then have "(2::nat) ^ (bits n - 1) = 2 * 2 ^ (bits (n div 2) - 1)"
      unfolding b by (cases "bits (n div 2)") simp_all
    moreover have "2 * (n div 2) \<le> n" by simp
    ultimately have lo: "2 ^ (bits n - 1) \<le> n" using ih by linarith
    have "n < 2 * (n div 2) + 2" by presburger
    then have "n < 2 * 2 ^ bits (n div 2)" using ih by linarith
    then show ?thesis using lo b by simp
  qed
qed

lemma roundFrac_nearest:
  assumes "0 < D"
  shows "2 * (roundFrac N D * D) \<le> 2 * N + D \<and> 2 * N \<le> 2 * (roundFrac N D * D) + D"
proof -
  define q where "q = N div D"
  define r where "r = N mod D"
  have n: "N = q * D + r" by (simp add: q_def r_def)
  have r: "r < D" using assms by (simp add: r_def)
  have s: "(q + 1) * D = q * D + D" by simp
  consider (down) "roundFrac N D = q" "2 * r \<le> D" | (up) "roundFrac N D = q + 1" "D \<le> 2 * r"
    unfolding roundFrac_def Let_def q_def [symmetric] r_def [symmetric]
    by (cases "2 * r < D"; cases "D < 2 * r"; cases "even q") auto
  then show ?thesis
  proof cases
    case down
    have "2 * (q * D) \<le> 2 * N + D" using n by linarith
    moreover have "2 * N \<le> 2 * (q * D) + D" using n down(2) by linarith
    ultimately show ?thesis by (simp only: down(1))
  next
    case up
    have "2 * ((q + 1) * D) \<le> 2 * N + D" using n s up(2) by linarith
    moreover have "2 * N \<le> 2 * ((q + 1) * D) + D" using n s r by linarith
    ultimately show ?thesis by (simp only: up(1))
  qed
qed

lemma bits_pos: "0 < n \<Longrightarrow> 0 < bits n"
  by (subst bits.simps) simp

lemma ilog2_bounds:
  assumes "0 < N" "0 < D"
  shows "2 powi (ilog2 N D) \<le> (of_nat N / of_nat D :: rat)
       \<and> (of_nat N / of_nat D :: rat) < 2 powi (ilog2 N D + 1)"
proof -
  define d where "d = int (bits N) - int (bits D)"
  define x :: rat where "x = of_nat N / of_nat D"
  have bn: "(2::rat) ^ (bits N - 1) \<le> of_nat N" "(of_nat N :: rat) < 2 ^ bits N"
    using bits_bounds [OF assms(1)] by (metis of_nat_le_iff of_nat_numeral of_nat_power, metis of_nat_less_iff of_nat_numeral of_nat_power)
  have bd: "(2::rat) ^ (bits D - 1) \<le> of_nat D" "(of_nat D :: rat) < 2 ^ bits D"
    using bits_bounds [OF assms(2)] by (metis of_nat_le_iff of_nat_numeral of_nat_power, metis of_nat_less_iff of_nat_numeral of_nat_power)
  have Dp: "(0::rat) < of_nat D" using assms(2) by simp
  have Np: "(0::rat) < of_nat N" using assms(1) by simp
  have pn: "(2::rat) ^ (bits N - 1) = 2 powi (int (bits N) - 1)"
    using bits_pos [OF assms(1)] by (simp add: power_int_def nat_diff_distrib')
  have pd: "(2::rat) ^ (bits D - 1) = 2 powi (int (bits D) - 1)"
    using bits_pos [OF assms(2)] by (simp add: power_int_def nat_diff_distrib')
  have "x < 2 ^ bits N / 2 ^ (bits D - 1)"
    unfolding x_def by (rule frac_less) (use bn(2) bd(1) in simp_all)
  also have "\<dots> = 2 powi (int (bits N) - (int (bits D) - 1))"
    unfolding pd by (simp add: power_int_diff)
  also have "\<dots> = 2 powi (d + 1)"
    by (simp add: d_def algebra_simps)
  finally have up: "x < 2 powi (d + 1)" .
  have "2 powi (d - 1) = (2::rat) ^ (bits N - 1) / 2 ^ bits D"
    unfolding pn d_def by (simp add: power_int_diff)
  also have "\<dots> < x"
    unfolding x_def by (rule frac_less2) (use bn(1) bd(2) Dp in simp_all)
  finally have lo: "2 powi (d - 1) < x" .
  have cond: "(if 0 \<le> d then D * 2 ^ nat d \<le> N else D \<le> N * 2 ^ nat (- d)) \<longleftrightarrow> 2 powi d \<le> x"
  proof (cases "0 \<le> d")
    case True
    have "(D * 2 ^ nat d \<le> N) = ((of_nat D :: rat) * 2 ^ nat d \<le> of_nat N)"
      by (metis of_nat_le_iff of_nat_mult of_nat_numeral of_nat_power)
    also have "\<dots> = (2 powi d \<le> x)"
      unfolding x_def using True Dp
      by (simp add: power_int_def pos_le_divide_eq mult.commute)
    finally show ?thesis using True by simp
  next
    case False
    have "(D \<le> N * 2 ^ nat (- d)) = ((of_nat D :: rat) \<le> of_nat N * 2 ^ nat (- d))"
      by (metis of_nat_le_iff of_nat_mult of_nat_numeral of_nat_power)
    also have "\<dots> = (2 powi d \<le> x)"
      unfolding x_def using False Dp
      by (simp add: power_int_def field_simps)
    finally show ?thesis using False by simp
  qed
  have l: "ilog2 N D = (if 2 powi d \<le> x then d else d - 1)"
    unfolding ilog2_def Let_def d_def [symmetric] cond by simp
  show ?thesis
    unfolding x_def [symmetric] l using up lo by auto
qed

lemma roundFrac_half:
  assumes "0 < D"
  shows "\<bar>(of_nat (roundFrac N D) :: rat) - of_nat N / of_nat D\<bar> \<le> 1 / 2"
proof -
  define m where "m = roundFrac N D"
  have a: "2 * (m * D) \<le> 2 * N + D" and b: "2 * N \<le> 2 * (m * D) + D"
    using roundFrac_nearest [OF assms, of N] by (simp_all add: m_def)
  have a': "2 * ((of_nat m :: rat) * of_nat D) \<le> 2 * of_nat N + of_nat D"
    using a by (metis of_nat_le_iff of_nat_add of_nat_mult of_nat_numeral)
  have b': "2 * (of_nat N :: rat) \<le> 2 * (of_nat m * of_nat D) + of_nat D"
    using b by (metis of_nat_le_iff of_nat_add of_nat_mult of_nat_numeral)
  have Dp: "(0::rat) < of_nat D" using assms by simp
  have "(of_nat m :: rat) - of_nat N / of_nat D \<le> 1 / 2"
    using a' Dp by (simp add: field_simps)
  moreover have "of_nat N / of_nat D - (of_nat m :: rat) \<le> 1 / 2"
    using b' Dp by (simp add: field_simps)
  ultimately have "\<bar>(of_nat m :: rat) - of_nat N / of_nat D\<bar> \<le> 1 / 2"
    by linarith
  then show ?thesis
    unfolding m_def .
qed

lemma round64_nearest:
  assumes "0 < N" "0 < D"
  shows "2 ^ 52 \<le> fst (round64 N D) \<and> fst (round64 N D) < 2 ^ 53
       \<and> \<bar>double_value (fst (round64 N D)) (snd (round64 N D)) - of_nat N / of_nat D\<bar>
           \<le> 2 powi (snd (round64 N D)) / 2"
proof -
  define x :: rat where "x = of_nat N / of_nat D"
  define e where "e = ilog2 N D - 52"
  define y where "y = x * 2 powi (- e)"
  define m where "m = (if 0 \<le> e then roundFrac N (D * 2 ^ nat e)
                       else roundFrac (N * 2 ^ nat (- e)) D)"
  have e52: "e + 52 = ilog2 N D" and e53: "e + 53 = ilog2 N D + 1"
    by (simp_all add: e_def)
  have xb: "2 powi (e + 52) \<le> x" "x < 2 powi (e + 53)"
    unfolding e52 e53 x_def using ilog2_bounds [OF assms] by blast+
  have pe: "(0::rat) < 2 powi (- e)" by simp
  have y_lo: "2 ^ 52 \<le> y"
  proof -
    have "2 powi (e + 52) * 2 powi (- e) \<le> y"
      unfolding y_def using xb(1) pe by (rule mult_right_mono [OF _ less_imp_le])
    moreover have "(2::rat) powi (e + 52) * 2 powi (- e) = 2 powi 52"
      by (simp add: power_int_add [symmetric])
    ultimately show ?thesis by simp
  qed
  have y_hi: "y < 2 ^ 53"
  proof -
    have "y < 2 powi (e + 53) * 2 powi (- e)"
      unfolding y_def using xb(2) pe by (rule mult_strict_right_mono)
    moreover have "(2::rat) powi (e + 53) * 2 powi (- e) = 2 powi 53"
      by (simp add: power_int_add [symmetric])
    ultimately show ?thesis by simp
  qed
  have my: "\<bar>(of_nat m :: rat) - y\<bar> \<le> 1 / 2"
  proof (cases "0 \<le> e")
    case True
    have "(of_nat N :: rat) / of_nat (D * 2 ^ nat e) = y"
      using True by (simp add: y_def x_def power_int_def field_simps)
    then show ?thesis
      using roundFrac_half [of "D * 2 ^ nat e" N] assms(2) True by (simp add: m_def)
  next
    case False
    have "(of_nat (N * 2 ^ nat (- e)) :: rat) / of_nat D = y"
      using False by (simp add: y_def x_def power_int_def field_simps)
    then show ?thesis
      using roundFrac_half [of D "N * 2 ^ nat (- e)"] assms(2) False by (simp add: m_def)
  qed
  have "(2::rat) ^ 52 - 1 < of_nat m" using my y_lo by linarith
  then have "(of_nat (2 ^ 52) :: rat) < of_nat (m + 1)" by simp
  then have m_lo: "2 ^ 52 \<le> m" unfolding of_nat_less_iff by simp
  have "(of_nat m :: rat) < 2 ^ 53 + 1" using my y_hi by linarith
  then have "(of_nat m :: rat) < of_nat (2 ^ 53 + 1)" by simp
  then have m_hi: "m \<le> 2 ^ 53" unfolding of_nat_less_iff by simp
  have err: "\<bar>of_nat m * 2 powi e - x\<bar> \<le> 2 powi e / 2"
  proof -
    have "x = y * 2 powi e"
      by (simp add: y_def power_int_minus)
    then have "of_nat m * 2 powi e - x = (of_nat m - y) * 2 powi e"
      by (simp add: algebra_simps)
    then have "\<bar>of_nat m * 2 powi e - x\<bar> = \<bar>of_nat m - y\<bar> * 2 powi e"
      by (simp add: abs_mult)
    also have "\<dots> \<le> 1 / 2 * 2 powi e"
      using my by (rule mult_right_mono) simp
    finally show ?thesis by simp
  qed
  have r: "round64 N D = (if m = 2 ^ 53 then (2 ^ 52, e + 1) else (m, e))"
    using assms(1) by (simp add: round64_def Let_def e_def m_def)
  show ?thesis
  proof (cases "m = 2 ^ 53")
    case True
    have "double_value (2 ^ 52) (e + 1) = of_nat m * 2 powi e"
      by (simp add: double_value_def True power_int_add)
    moreover have "(2::rat) powi e / 2 \<le> 2 powi (e + 1) / 2"
      by (simp add: power_int_add)
    ultimately show ?thesis
      using err unfolding r x_def [symmetric] by (simp add: True)
  next
    case False
    then show ?thesis
      using err m_lo m_hi unfolding r x_def [symmetric] by (simp add: double_value_def)
  qed
qed

lemma digits_chars: "set (digits n) \<subseteq> {48..57}"
proof (induction n rule: digits.induct)
  case (1 n)
  show ?case
  proof (cases "n < 10")
    case True
    then show ?thesis by (subst digits.simps) auto
  next
    case False
    have "n mod 10 < 10" by simp
    then have "48 + n mod 10 \<in> {48..57}" by auto
    then show ?thesis
      using False 1 by (subst digits.simps) auto
  qed
qed

lemma digits_not_Nil: "digits n \<noteq> []"
  by (subst digits.simps) simp

lemma point_before_last:
  "set d \<subseteq> S \<Longrightarrow> d \<noteq> [] \<Longrightarrow> set (butlast d @ [p] @ [last d]) \<subseteq> insert p S"
proof -
  assume a: "set d \<subseteq> S" and b: "d \<noteq> []"
  have "set (butlast d) \<subseteq> S"
    using a in_set_butlastD by fastforce
  moreover have "last d \<in> S"
    using a b last_in_set by blast
  ultimately show ?thesis by auto
qed

lemma toFixed1_Finite_chars: "set (toFixed1 (Finite m e)) \<subseteq> insert 46 {48..57}"
proof -
  define n where "n = (if 0 \<le> e then 10 * m * 2 ^ nat e
            else (20 * m + 2 ^ nat (- e)) div 2 ^ (nat (- e) + 1))"
  define d where "d = (if length (digits n) \<le> 1 then [48] @ digits n else digits n)"
  have c: "set d \<subseteq> {48..57}"
    using digits_chars [of n] by (simp add: d_def)
  have nn: "d \<noteq> []"
    using digits_not_Nil [of n] by (simp add: d_def)
  have z: "js ''0'' = [48]" and p: "js ''.'' = [46]"
    by (simp_all add: js_def)
  have "toFixed1 (Finite m e) = butlast d @ [46] @ [last d]"
    unfolding toFixed1_def number.case Let_def z p n_def d_def by (rule refl)
  then show ?thesis
    using point_before_last [OF c nn, of 46] by simp
qed

lemma js_div_Finite: "0 < b \<Longrightarrow> \<exists>m e. js_div a b = Finite m e"
  by (simp add: js_div_def split: prod.splits)

lemma js_times_Finite: "\<exists>m' e'. js_times (Finite m e) n = Finite m' e'"
  by (simp add: js_times_def split: prod.splits)

lemma percent_chars:
  "0 < b \<Longrightarrow> set (toFixed1 (js_times (js_div a b) 100)) \<subseteq> insert 46 {48..57}"
  using js_div_Finite [of b a] js_times_Finite toFixed1_Finite_chars
  by metis

lemma percent_not_NaN:
  assumes "0 < b"
  shows "toFixed1 (js_times (js_div a b) 100) \<noteq> js ''NaN''"
    and "toFixed1 (js_times (js_div a b) 100) \<noteq> js ''Infinity''"
proof -
  have "78 \<notin> insert (46::nat) {48..57}" "73 \<notin> insert (46::nat) {48..57}" by simp_all
  moreover have "78 \<in> set (js ''NaN'')" "73 \<in> set (js ''Infinity'')" by (simp_all add: js_def)
  ultimately show "toFixed1 (js_times (js_div a b) 100) \<noteq> js ''NaN''"
    and "toFixed1 (js_times (js_div a b) 100) \<noteq> js ''Infinity''"
    using percent_chars [OF assms, of a] by (metis subsetD)+
qed

subsection \<open>Department rates\<close>

lemma incTotal_positive: "totals_positive deps \<Longrightarrow> totals_positive (incTotal k deps)"
  by (induction deps) (auto simp: totals_positive_def)

lemma incTotal_new:
  "totals_positive deps \<Longrightarrow> k \<notin> set (map fst deps) \<Longrightarrow>
   totals_positive (incTotal k (deps @ [(k, 0, 0)]))"
  by (induction deps) (auto simp: totals_positive_def)

lemma incClicked_positive: "totals_positive deps \<Longrightarrow> totals_positive (incClicked k deps)"
  by (induction deps) (auto simp: totals_positive_def)

lemma countUser_positive: "totals_positive deps \<Longrightarrow> totals_positive (countUser deps u)"
  by (simp add: countUser_def Let_def incTotal_positive incTotal_new)

lemma countClick_positive: "totals_positive deps \<Longrightarrow> totals_positive (countClick us deps c)"
  by (simp add: countClick_def Let_def incClicked_positive split: option.splits)

lemma foldl_countUser_positive:
  "totals_positive deps \<Longrightarrow> totals_positive (foldl countUser deps us)"
  by (induction us arbitrary: deps) (simp_all add: countUser_positive)

lemma foldl_countClick_positive:
  "totals_positive deps \<Longrightarrow> totals_positive (foldl (countClick us) deps cs)"
  by (induction cs arbitrary: deps) (simp_all add: countClick_positive)

lemma set_ownEntries: "set (ownEntries deps) = set deps"
  by (auto simp: ownEntries_def)

text \<open>
  Claim C8. Every entry of the department report has \<^verbatim>\<open>rate\<close> equal to
  \<^verbatim>\<open>((clicked / total) * 100).toFixed(1)\<close> of its own \<^verbatim>\<open>clicked\<close> and \<^verbatim>\<open>total\<close> when
  \<^verbatim>\<open>total > 0\<close>, and to the string \<^verbatim>\<open>0.0\<close> when \<^verbatim>\<open>total\<close> is 0; the rate is a decimal
  numeral, never \<^verbatim>\<open>NaN\<close> or \<^verbatim>\<open>Infinity\<close>. A department is created by the user that
  is counted into it, so the report has no entry with \<^verbatim>\<open>total\<close> = 0.
\<close>

theorem C8_department_rates:
  "(\<forall>e \<in> set (getStatisticsDepartments s).
      dr_rate e = (if dr_total e > 0
                   then toFixed1 (js_times (js_div (dr_clicked e) (dr_total e)) 100)
                   else js ''0.0'')
      \<and> dr_rate e \<noteq> js ''NaN'' \<and> dr_rate e \<noteq> js ''Infinity''
      \<and> set (dr_rate e) \<subseteq> insert 46 {48..57}
      \<and> dr_total e > 0)
   \<and> rateOf 0 clk = js ''0.0''"
proof -
  let ?deps = "foldl (countClick (Users s)) (foldl countUser [] (Users s)) (Clicks s)"
  have "totals_positive ?deps"
    by (intro foldl_countClick_positive foldl_countUser_positive) (simp add: totals_positive_def)
  then have pos: "0 < tot" if "(k, tot, clk) \<in> set (ownEntries ?deps)" for k tot clk
    using that unfolding set_ownEntries totals_positive_def list_all_iff by auto
  have "dr_rate e = rateOf (dr_total e) (dr_clicked e) \<and> dr_total e > 0"
    if "e \<in> set (getStatisticsDepartments s)" for e
    using that pos by (auto simp: getStatisticsDepartments_def Let_def)
  then show ?thesis
    by (auto simp: rateOf_def percent_not_NaN dest: subsetD [OF percent_chars])
qed

text \<open>
  Two users in two departments and one click of the first: \<^verbatim>\<open>100.0\<close> and \<^verbatim>\<open>0.0\<close>.
\<close>

theorem C8_witness:
  "getStatisticsDepartments db_rates
     = [\<lparr>dr_department = js ''IT'', dr_total = 1, dr_clicked = 1, dr_rate = js ''100.0''\<rparr>,
        \<lparr>dr_department = js ''Ventas'', dr_total = 1, dr_clicked = 0, dr_rate = js ''0.0''\<rparr>]
   \<and> js ''100.0'' \<noteq> js ''NaN''"
proof -
  have u: "foldl countUser [] (Users db_rates) = [(js ''IT'', 1, 0), (js ''Ventas'', 1, 0)]"
    by (simp add: db_rates_def countUser_def propertyKey_def objectPrototypeKeys_def alice_def
        bob_def js_def)
  have c: "foldl (countClick (Users db_rates)) [(js ''IT'', 1, 0), (js ''Ventas'', 1, 0)]
             (Clicks db_rates) = [(js ''IT'', 1, 1), (js ''Ventas'', 1, 0)]"
    by (simp add: db_rates_def countClick_def clickOfTrack_def track1_def alice_def bob_def
        truthy_def js_def)
  have o: "ownEntries [(js ''IT'', 1, 1), (js ''Ventas'', 1, 0)]
             = [(js ''IT'', 1, 1), (js ''Ventas'', 1, 0)]"
    by (simp add: ownEntries_def arrayIndex_def js_def)
  have r1: "rateOf 1 1 = js ''100.0''"
    by (simp add: rateOf_def toFixed1_def js_times_def js_div_def round64_def ilog2_def
        roundFrac_def bits.simps digits.simps js_def Let_def)
  have r0: "rateOf 1 0 = js ''0.0''"
    by (simp add: rateOf_def toFixed1_def js_times_def js_div_def round64_def ilog2_def
        roundFrac_def bits.simps digits.simps js_def Let_def)
  have e: "getStatisticsDepartments db_rates
     = [\<lparr>dr_department = js ''IT'', dr_total = 1, dr_clicked = 1, dr_rate = js ''100.0''\<rparr>,
        \<lparr>dr_department = js ''Ventas'', dr_total = 1, dr_clicked = 0, dr_rate = js ''0.0''\<rparr>]"
    unfolding getStatisticsDepartments_def Let_def u c o using r1 r0 by simp
  show ?thesis
    using e C8_department_rates [of db_rates] by (simp add: js_def)
qed

text \<open>
  The quotient is a double: 23 clicks of 80 users print \<^verbatim>\<open>28.7\<close>, since
  \<^verbatim>\<open>(23 / 80) * 100\<close> is the double just below 28.75.
\<close>

lemma rateOf_23_of_80:
  "rateOf 80 23 = js ''28.7'' \<and> js_times (js_div 23 80) 100 = Finite 8092405580431359 (- 48)"
  by (simp add: rateOf_def toFixed1_def js_times_def js_div_def round64_def ilog2_def
      roundFrac_def bits.simps digits.simps js_def Let_def)

subsection \<open>Vulnerability report\<close>

lemma foldl_plus_length:
  "foldl (\<lambda>sum c. sum + length (targetUsers c)) a cs
     = a + sum_list (map (\<lambda>c. length (targetUsers c)) cs)"
  by (induction cs arbitrary: a) simp_all

lemma totalEmails_sum:
  "totalEmails s = sum_list (map (\<lambda>c. length (targetUsers c)) (Campaigns s))"
  by (simp add: totalEmails_def foldl_plus_length)

text \<open>
  Claim C7, as amended. With totalTargetedRecipients the sum over all campaigns of the
  length of the declared target list, \<^verbatim>\<open>avgClickRate\<close> is the string
  \<^verbatim>\<open>((totalClicks / totalTargetedRecipients) * 100).toFixed(1)\<close>, the quotient printed
  with one decimal, when there are targeted recipients, and the number 0 when there are
  none; \<^verbatim>\<open>avgCredentialRate\<close> likewise from the number of Credential events. Neither is
  ever \<^verbatim>\<open>NaN\<close>.
\<close>

theorem C7_report_rates:
  "avgClickRate (getReportsVulnerability s)
     = (if sum_list (map (\<lambda>c. length (targetUsers c)) (Campaigns s)) > 0
        then Str (toFixed1 (js_times
               (js_div (length (Clicks s))
                  (sum_list (map (\<lambda>c. length (targetUsers c)) (Campaigns s)))) 100))
        else Num (Finite 0 0))
   \<and> avgCredentialRate (getReportsVulnerability s)
     = (if sum_list (map (\<lambda>c. length (targetUsers c)) (Campaigns s)) > 0
        then Str (toFixed1 (js_times
               (js_div (length (Credentials s))
                  (sum_list (map (\<lambda>c. length (targetUsers c)) (Campaigns s)))) 100))
        else Num (Finite 0 0))
   \<and> avgClickRate (getReportsVulnerability s) \<noteq> Num NaN
   \<and> avgClickRate (getReportsVulnerability s) \<noteq> Str (js ''NaN'')
   \<and> avgCredentialRate (getReportsVulnerability s) \<noteq> Num NaN
   \<and> avgCredentialRate (getReportsVulnerability s) \<noteq> Str (js ''NaN'')"
  by (simp add: getReportsVulnerability_def avgRate_def totalEmails_sum Let_def percent_not_NaN)

text \<open>
  The claim as stated fails: with three targeted recipients and one click the rate is
  not the quotient \<^verbatim>\<open>1 / 3 * 100\<close>, the double 33.33333333333333, but the string
  \<^verbatim>\<open>33.3\<close>.
\<close>

theorem C7_counterexample:
  "avgClickRate (getReportsVulnerability db_rates) = Str (js ''33.3'')
   \<and> js_times (js_div (length (Clicks db_rates)) (totalEmails db_rates)) 100
       = Finite 4691249611844266 (- 47)
   \<and> avgClickRate (getReportsVulnerability db_rates)
       \<noteq> Num (js_times (js_div (length (Clicks db_rates)) (totalEmails db_rates)) 100)"
proof -
  have t: "totalEmails db_rates = 3" "length (Clicks db_rates) = 1"
    by (simp_all add: totalEmails_def db_rates_def campaign3_def newCampaign_def body1_def)
  have q: "js_times (js_div 1 3) 100 = Finite 4691249611844266 (- 47)"
    by (simp add: js_times_def js_div_def round64_def ilog2_def roundFrac_def bits.simps
        Let_def)
  have p: "toFixed1 (Finite 4691249611844266 (- 47)) = js ''33.3''"
    by (simp add: toFixed1_def digits.simps js_def Let_def)
  have a: "avgClickRate (getReportsVulnerability db_rates)
             = avgRate (length (Clicks db_rates)) (totalEmails db_rates)"
    by (simp add: getReportsVulnerability_def Let_def)
  have b: "avgRate 1 3 = Str (js ''33.3'')"
    unfolding avgRate_def q p by simp
  show ?thesis
    unfolding a t b q by simp
qed

lemma length_three_filters:
  assumes "\<And>x. x \<in> set xs \<Longrightarrow> (P x \<and> \<not> Q x \<and> \<not> R x) \<or> (\<not> P x \<and> Q x \<and> \<not> R x)
             \<or> (\<not> P x \<and> \<not> Q x \<and> R x)"
  shows "length (filter P xs) + length (filter Q xs) + length (filter R xs) = length xs"
  using assms
proof (induction xs)
  case Nil
  then show ?case by simp
next
  case (Cons x xs)
  then have "length (filter P xs) + length (filter Q xs) + length (filter R xs) = length xs"
    by simp
  moreover have "(P x \<and> \<not> Q x \<and> \<not> R x) \<or> (\<not> P x \<and> Q x \<and> \<not> R x)
             \<or> (\<not> P x \<and> \<not> Q x \<and> R x)"
    using Cons.prems by simp
  ultimately show ?case by auto
qed

lemma risk_en_one_label:
  "(risk_en c k = js ''high'' \<and> risk_en c k \<noteq> js ''medium'' \<and> risk_en c k \<noteq> js ''low'')
   \<or> (risk_en c k \<noteq> js ''high'' \<and> risk_en c k = js ''medium'' \<and> risk_en c k \<noteq> js ''low'')
   \<or> (risk_en c k \<noteq> js ''high'' \<and> risk_en c k \<noteq> js ''medium'' \<and> risk_en c k = js ''low'')"
  by (simp add: risk_en_def js_def)

lemma risk_en_levels:
  "(risk_en c k = js ''high'') = (1 < k)"
  "(risk_en c k = js ''medium'') = (\<not> 1 < k \<and> 2 < c)"
  "(risk_en c k = js ''low'') = (\<not> 1 < k \<and> \<not> 2 < c)"
  by (simp_all add: risk_en_def js_def)

lemma length_filter_labels:
  "length (filter (\<lambda>(i, risk). risk = l) (map (\<lambda>u. (f u, g u)) us))
     = length (filter (\<lambda>u. g u = l) us)"
  by (induction us) simp_all

text \<open>
  Claim C10. In every vulnerability report the three buckets partition the stored
  users: \<^verbatim>\<open>highRisk\<close> counts the users with more than one Credential event,
  \<^verbatim>\<open>mediumRisk\<close> those among the others with more than two Click events, \<^verbatim>\<open>lowRisk\<close>
  the rest; \<^verbatim>\<open>totalUsers\<close> is the number of stored users, and the three buckets add up
  to it.
\<close>

theorem C10_risk_buckets_partition:
  "totalUsers (getReportsVulnerability s) = length (Users s)
   \<and> highRisk (getReportsVulnerability s)
       = length (filter (\<lambda>u. 1 < length (filter (\<lambda>c. cred_userId c = user_id u) (Credentials s)))
                   (Users s))
   \<and> mediumRisk (getReportsVulnerability s)
       = length (filter (\<lambda>u. \<not> 1 < length (filter (\<lambda>c. cred_userId c = user_id u) (Credentials s))
                            \<and> 2 < length (filter (\<lambda>c. userId c = user_id u) (Clicks s)))
                   (Users s))
   \<and> lowRisk (getReportsVulnerability s)
       = length (filter (\<lambda>u. \<not> 1 < length (filter (\<lambda>c. cred_userId c = user_id u) (Credentials s))
                            \<and> \<not> 2 < length (filter (\<lambda>c. userId c = user_id u) (Clicks s)))
                   (Users s))
   \<and> highRisk (getReportsVulnerability s) + mediumRisk (getReportsVulnerability s)
       + lowRisk (getReportsVulnerability s) = length (Users s)
   \<and> highRisk (getReportsVulnerability s) + mediumRisk (getReportsVulnerability s)
       + lowRisk (getReportsVulnerability s) = totalUsers (getReportsVulnerability s)"
proof -
  let ?stats = "map (\<lambda>u. (user_id u, risk_en (clicksOfUser s u) (credsOfUser s u))) (Users s)"
  have t: "totalUsers (getReportsVulnerability s) = length (Users s)"
    by (simp add: getReportsVulnerability_def Let_def)
  have h: "highRisk (getReportsVulnerability s)
       = length (filter (\<lambda>u. 1 < length (filter (\<lambda>c. cred_userId c = user_id u) (Credentials s)))
                   (Users s))"
  proof -
    have "highRisk (getReportsVulnerability s)
        = length (filter (\<lambda>(i, risk). risk = js ''high'') ?stats)"
      unfolding getReportsVulnerability_def Let_def by simp
    also have "\<dots> = length (filter (\<lambda>u. risk_en (clicksOfUser s u) (credsOfUser s u) = js ''high'')
                          (Users s))"
      by (rule length_filter_labels)
    finally show ?thesis
      by (simp only: risk_en_levels credsOfUser_def clicksOfUser_def)
  qed
  have m: "mediumRisk (getReportsVulnerability s)
       = length (filter (\<lambda>u. \<not> 1 < length (filter (\<lambda>c. cred_userId c = user_id u) (Credentials s))
                            \<and> 2 < length (filter (\<lambda>c. userId c = user_id u) (Clicks s)))
                   (Users s))"
  proof -
    have "mediumRisk (getReportsVulnerability s)
        = length (filter (\<lambda>(i, risk). risk = js ''medium'') ?stats)"
      unfolding getReportsVulnerability_def Let_def by simp
    also have "\<dots> = length (filter (\<lambda>u. risk_en (clicksOfUser s u) (credsOfUser s u) = js ''medium'')
                          (Users s))"
      by (rule length_filter_labels)
    finally show ?thesis
      by (simp only: risk_en_levels credsOfUser_def clicksOfUser_def)
  qed
  have l: "lowRisk (getReportsVulnerability s)
       = length (filter (\<lambda>u. \<not> 1 < length (filter (\<lambda>c. cred_userId c = user_id u) (Credentials s))
                            \<and> \<not> 2 < length (filter (\<lambda>c. userId c = user_id u) (Clicks s)))
                   (Users s))"
  proof -
    have "lowRisk (getReportsVulnerability s)
        = length (filter (\<lambda>(i, risk). risk = js ''low'') ?stats)"
      unfolding getReportsVulnerability_def Let_def by simp
    also have "\<dots> = length (filter (\<lambda>u. risk_en (clicksOfUser s u) (credsOfUser s u) = js ''low'')
                          (Users s))"
      by (rule length_filter_labels)
    finally show ?thesis
      by (simp only: risk_en_levels credsOfUser_def clicksOfUser_def)
  qed
  have "length (filter (\<lambda>(i, risk). risk = js ''high'') ?stats)
      + length (filter (\<lambda>(i, risk). risk = js ''medium'') ?stats)
      + length (filter (\<lambda>(i, risk). risk = js ''low'') ?stats) = length ?stats"
    by (rule length_three_filters) (use risk_en_one_label in auto)
  then have sum: "highRisk (getReportsVulnerability s) + mediumRisk (getReportsVulnerability s)
       + lowRisk (getReportsVulnerability s) = length (Users s)"
    by (simp add: getReportsVulnerability_def Let_def)
  show ?thesis
    using t h m l sum by (simp only: simp_thms)
qed

text \<open>
  Three stored users: one with two submitted forms, one with three clicks, one with
  neither. One in each bucket.
\<close>

theorem C10_witness:
  "highRisk (getReportsVulnerability db_risk) = 1
   \<and> mediumRisk (getReportsVulnerability db_risk) = 1
   \<and> lowRisk (getReportsVulnerability db_risk) = 1
   \<and> totalUsers (getReportsVulnerability db_risk) = 3
   \<and> length (Users db_risk) = 3"
proof -
  have u: "length (Users db_risk) = 3"
    by (simp add: db_risk_def)
  have h: "length (filter (\<lambda>u. 1 < length (filter (\<lambda>c. cred_userId c = user_id u) (Credentials db_risk)))
                   (Users db_risk)) = 1"
    by (simp add: db_risk_def alice_def bob_def carol_def js_def)
  have m: "length (filter (\<lambda>u. \<not> 1 < length (filter (\<lambda>c. cred_userId c = user_id u) (Credentials db_risk))
                            \<and> 2 < length (filter (\<lambda>c. userId c = user_id u) (Clicks db_risk)))
                   (Users db_risk)) = 1"
    by (simp add: db_risk_def alice_def bob_def carol_def js_def)
  show ?thesis
    using C10_risk_buckets_partition [of db_risk] u h m by simp
qed

end
